theory Spec2Isabelle
  imports Main "HOL-Library.Word"
begin

unbundle bit_operations_syntax

section \<open>Errors and outcomes\<close>

text \<open>
  Go errors are modelled by the sentinel they wrap (what \<open>errors.Is\<close> observes); the
  formatted message text is dropped.  A function returning \<open>error\<close> returns an
  \<open>outcome\<close>; a run-time panic (nil dereference, failed type assertion, \<open>MustSet\<close> on a
  duplicate) is the separate outcome \<open>Panic\<close>.
\<close>

datatype error =
    ErrInvalidAccountStateTransition
  | ErrInvalidAccountGovernanceTransition
  | ErrInvalidBlockIssuerTransition
  | ErrInvalidFoundryStateTransition
  | ErrInvalidFeatureTransition
  | ErrNonUniqueFeatures
  | ErrIntegerOverflow
  | ErrTransactionBuilder
  | ErrChainNotUnlocked
  | ErrExternal string

datatype outcome = Success | Failure error | Panic

section \<open>Work scores\<close>

type_synonym WorkScore = "32 word"

text \<open>
  \<open>safemath.SafeAdd\<close> and \<open>safemath.SafeMul\<close> belong to the external hive.go library.
  They are taken by their contract on unsigned operands: the exact result when it fits
  the type, an overflow error otherwise.
\<close>

definition SafeAdd :: "WorkScore \<Rightarrow> WorkScore \<Rightarrow> error + WorkScore" where
  "SafeAdd x y = (if unat x + unat y < 2 ^ 32 then Inr (x + y) else Inl ErrIntegerOverflow)"

definition SafeMul :: "WorkScore \<Rightarrow> WorkScore \<Rightarrow> error + WorkScore" where
  "SafeMul x y = (if unat x * unat y < 2 ^ 32 then Inr (x * y) else Inl ErrIntegerOverflow)"

text \<open>\<open>WorkScore.Add(in ...WorkScore)\<close>: the loop over the variadic arguments.\<close>

fun WorkScore_Add :: "WorkScore \<Rightarrow> WorkScore list \<Rightarrow> error + WorkScore" where
  "WorkScore_Add w [] = Inr w"
| "WorkScore_Add w (workScore # rest) =
     (case SafeAdd w workScore of
        Inl err \<Rightarrow> Inl err
      | Inr result \<Rightarrow> WorkScore_Add result rest)"

text \<open>
  \<open>WorkScore.Multiply(in int)\<close>.  The argument is a Go \<open>int\<close>; the conversion
  \<open>WorkScore(in)\<close> keeps its low 32 bits, which is \<open>word_of_int\<close>.
\<close>

definition WorkScore_Multiply :: "WorkScore \<Rightarrow> int \<Rightarrow> error + WorkScore" where
  "WorkScore_Multiply w n = SafeMul w (word_of_int n)"

record WorkScoreStructure =
  DataKibibyte :: WorkScore
  Block :: WorkScore
  MissingParent :: WorkScore
  Input :: WorkScore
  ContextInput :: WorkScore
  Output :: WorkScore
  NativeToken :: WorkScore
  Staking :: WorkScore
  BlockIssuer :: WorkScore
  Allotment :: WorkScore
  SignatureEd25519 :: WorkScore
  MinStrongParentsThreshold :: "8 word"

text \<open>
  The size limits \<open>MaxBlockSize\<close>, \<open>MaxInputsCount\<close>, ... are constants that are not
  part of the sources modelled here; they are parameters of the model.
\<close>

record Limits =
  MaxBlockSize :: int
  MaxInputsCount :: int
  MaxContextInputsCount :: int
  MaxOutputsCount :: int
  MaxNativeTokenCountPerOutput :: int
  MaxAllotmentCount :: int

text \<open>
  \<open>WorkScoreStructure.MaxBlockWork\<close>.  \<open>step acc r k\<close> is one
  ``\<open>f, err := ...Multiply(...); if err != nil { return 0, err }; maxBlockWork += f\<close>''
  block: the product is checked, the accumulation is the plain \<open>+=\<close> of the source.
\<close>

definition mbw_step ::
  "error + WorkScore \<Rightarrow> (WorkScore \<Rightarrow> error + WorkScore) \<Rightarrow> error + WorkScore" where
  "mbw_step r k = (case r of Inl err \<Rightarrow> Inl err | Inr factor \<Rightarrow> k factor)"

definition MaxBlockWork :: "Limits \<Rightarrow> WorkScoreStructure \<Rightarrow> error + WorkScore" where
  "MaxBlockWork L w =
     mbw_step (WorkScore_Multiply (DataKibibyte w) (MaxBlockSize L)) (\<lambda>dataFactorBytes.
     let maxBlockWork = (0 :: WorkScore) + dataFactorBytes div 1024;
         maxBlockWork = maxBlockWork + Block w in
     mbw_step (WorkScore_Multiply (MissingParent w) (uint (MinStrongParentsThreshold w)))
       (\<lambda>missingParentsFactor.
     let maxBlockWork = maxBlockWork + missingParentsFactor in
     mbw_step (WorkScore_Multiply (Input w) (MaxInputsCount L)) (\<lambda>inputsFactor.
     let maxBlockWork = maxBlockWork + inputsFactor in
     mbw_step (WorkScore_Multiply (ContextInput w) (MaxContextInputsCount L))
       (\<lambda>contextInputsFactor.
     let maxBlockWork = maxBlockWork + contextInputsFactor in
     mbw_step (WorkScore_Multiply (Output w) (MaxOutputsCount L)) (\<lambda>outputsFactor.
     let maxBlockWork = maxBlockWork + outputsFactor in
     mbw_step (WorkScore_Multiply (NativeToken w)
                 (MaxNativeTokenCountPerOutput L * MaxOutputsCount L)) (\<lambda>nativeTokensFactor.
     let maxBlockWork = maxBlockWork + nativeTokensFactor in
     mbw_step (WorkScore_Multiply (Staking w) (MaxOutputsCount L)) (\<lambda>stakingFactor.
     let maxBlockWork = maxBlockWork + stakingFactor in
     mbw_step (WorkScore_Multiply (BlockIssuer w) (MaxOutputsCount L)) (\<lambda>blockIssuerFactor.
     let maxBlockWork = maxBlockWork + blockIssuerFactor in
     mbw_step (WorkScore_Multiply (Allotment w) (MaxAllotmentCount L)) (\<lambda>allotmentsFactor.
     let maxBlockWork = maxBlockWork + allotmentsFactor in
     mbw_step (WorkScore_Multiply (SignatureEd25519 w) (1 + MaxInputsCount L))
       (\<lambda>signatureFactor.
     let maxBlockWork = maxBlockWork + signatureFactor in
     Inr maxBlockWork))))))))))"


section \<open>Ledger objects\<close>

type_synonym bytes = "8 word list"
type_synonym SlotIndex = "32 word"
type_synonym EpochIndex = "32 word"
type_synonym Mana = "64 word"
type_synonym BaseToken = "64 word"
type_synonym AccountID = bytes
type_synonym NFTID = bytes
type_synonym FoundryID = bytes
type_synonym OutputID = bytes

text \<open>The block issuance credit is a signed balance; \<open>Negative\<close> is its sign test.\<close>

type_synonym BlockIssuanceCredits = int

definition Negative :: "BlockIssuanceCredits \<Rightarrow> bool" where
  "Negative bic = (bic < 0)"

text \<open>
  Addresses.  \<open>Equal\<close> on addresses compares the dynamic type and the bytes, which is
  equality of this datatype.  The chain addresses (\<open>ChainAddress\<close> interface) are the
  account and NFT addresses.
\<close>

datatype Address =
    Ed25519Address bytes
  | AccountAddress AccountID
  | NFTAddress NFTID
  | RestrictedEd25519Address bytes bytes
  | RestrictedAccountAddress bytes bytes

datatype ChainID = AccountChain AccountID | FoundryChain FoundryID | NFTChain NFTID

text \<open>\<open>AccountID.Matches(other ChainID)\<close>.\<close>

fun Matches :: "AccountID \<Rightarrow> ChainID \<Rightarrow> bool" where
  "Matches a (AccountChain otherAccountID) = (a = otherAccountID)"
| "Matches a _ = False"

subsection \<open>Features\<close>

datatype FeatureType =
    FeatureSender | FeatureIssuer | FeatureMetadata | FeatureStateMetadata
  | FeatureTag | FeatureNativeToken | FeatureBlockIssuer | FeatureStaking

datatype Feature =
    SenderFeature Address
  | IssuerFeature Address
  | MetadataFeature bytes
  | StateMetadataFeature bytes
  | TagFeature bytes
  | NativeTokenFeature bytes nat
  | BlockIssuerFeature (BlockIssuerKeys: "bytes list") (ExpirySlot: SlotIndex)
  | StakingFeature BaseToken Mana EpochIndex EpochIndex

fun Type :: "Feature \<Rightarrow> FeatureType" where
  "Type (SenderFeature _) = FeatureSender"
| "Type (IssuerFeature _) = FeatureIssuer"
| "Type (MetadataFeature _) = FeatureMetadata"
| "Type (StateMetadataFeature _) = FeatureStateMetadata"
| "Type (TagFeature _) = FeatureTag"
| "Type (NativeTokenFeature _ _) = FeatureNativeToken"
| "Type (BlockIssuerFeature _ _) = FeatureBlockIssuer"
| "Type (StakingFeature _ _ _ _) = FeatureStaking"

type_synonym Features = "Feature list"
type_synonym FeatureSet = "FeatureType \<rightharpoonup> Feature"

text \<open>\<open>Features.Set\<close>: the loop with its accumulator; a repeated type is an error.\<close>

fun Set_loop :: "Features \<Rightarrow> FeatureSet \<Rightarrow> error + FeatureSet" where
  "Set_loop [] fset = Inr fset"
| "Set_loop (feat # rest) fset =
     (if fset (Type feat) \<noteq> None then Inl ErrNonUniqueFeatures
      else Set_loop rest (fset(Type feat \<mapsto> feat)))"

definition Features_Set :: "Features \<Rightarrow> error + FeatureSet" where
  "Features_Set f = Set_loop f Map.empty"

text \<open>\<open>Features.MustSet\<close> panics on an error: \<open>None\<close> is the panic.\<close>

definition MustSet :: "Features \<Rightarrow> FeatureSet option" where
  "MustSet f = (case Features_Set f of Inl err \<Rightarrow> None | Inr fset \<Rightarrow> Some fset)"

text \<open>\<open>Features.Equal\<close>: same length and pairwise equal.\<close>

definition Features_Equal :: "Features \<Rightarrow> Features \<Rightarrow> bool" where
  "Features_Equal f other =
     (if length f \<noteq> length other then False
      else list_all (\<lambda>(feat, o_feat). feat = o_feat) (zip f other))"

text \<open>
  \<open>FeatureSet.BlockIssuer\<close>: the entry under \<open>FeatureBlockIssuer\<close> or nil.  A set built by
  \<open>Features.Set\<close> stores every feature under its own type (lemma \<open>Set_loop_key\<close> below), so
  the type assertion of the source cannot fail there.
\<close>

definition FeatureSet_BlockIssuer :: "FeatureSet \<Rightarrow> Feature option" where
  "FeatureSet_BlockIssuer f =
     (case f FeatureBlockIssuer of
        Some (BlockIssuerFeature ks e) \<Rightarrow> Some (BlockIssuerFeature ks e)
      | _ \<Rightarrow> None)"

text \<open>\<open>FeatureUnchanged\<close>.\<close>

definition FeatureUnchanged :: "FeatureType \<Rightarrow> FeatureSet \<Rightarrow> FeatureSet \<Rightarrow> error option" where
  "FeatureUnchanged featType inFeatSet outFeatSet =
     (case (inFeatSet featType, outFeatSet featType) of
        (None, Some out) \<Rightarrow> Some ErrInvalidFeatureTransition
      | (Some i, None) \<Rightarrow> Some ErrInvalidFeatureTransition
      | (None, None) \<Rightarrow> None
      | (Some i, Some out) \<Rightarrow> if i = out then None else Some ErrInvalidFeatureTransition)"

subsection \<open>Outputs\<close>

type_synonym NativeTokens = "(bytes \<times> nat) list"

text \<open>
  For basic and NFT outputs the unlock-condition set is represented by what the validator
  asks of it: \<open>basic_Manalock e accountID slot\<close> (\<open>nft_Manalock\<close> likewise) is the result of
  \<open>UnlockConditionSet().HasManalockCondition(accountID, slot)\<close>, a method that is
  not part of the sources modelled here.
\<close>

record BasicOutput =
  basic_Amount :: BaseToken
  basic_Mana :: Mana
  basic_Ident :: Address
  basic_Manalock :: "AccountID \<Rightarrow> SlotIndex \<Rightarrow> bool"

record NFTOutput =
  nft_Amount :: BaseToken
  nft_Mana :: Mana
  nft_NFTID :: NFTID
  nft_Ident :: Address
  nft_Manalock :: "AccountID \<Rightarrow> SlotIndex \<Rightarrow> bool"

text \<open>
  The account output with the fields and accessors the validator reads:
  \<open>StateController()\<close> and \<open>GovernorAddress()\<close> are the addresses of its two unlock
  conditions.
\<close>

record AccountOutput =
  Amount :: BaseToken
  Mana :: Mana
  NativeTokens :: NativeTokens
  AccountID :: AccountID
  StateIndex :: "32 word"
  StateMetadata :: bytes
  FoundryCounter :: "32 word"
  StateController :: Address
  GovernorAddress :: Address
  Features :: Features
  ImmutableFeatures :: Features

text \<open>
  The foundry output: \<open>foundry_Ident\<close> is the address of its immutable account unlock
  condition, \<open>TokenSchemeType\<close> the kind of its token scheme.
\<close>

record FoundryOutput =
  foundry_Amount :: BaseToken
  SerialNumber :: "32 word"
  TokenSchemeType :: "8 word"
  foundry_Ident :: Address

record DelegationOutput =
  delegation_Amount :: BaseToken

datatype Output =
    BasicOut BasicOutput
  | AccountOut AccountOutput
  | FoundryOut FoundryOutput
  | NFTOut NFTOutput
  | DelegationOut DelegationOutput

datatype OutputType = OutputBasic | OutputAccount | OutputFoundry | OutputNFT | OutputDelegation

fun StoredMana :: "Output \<Rightarrow> Mana" where
  "StoredMana (BasicOut e) = basic_Mana e"
| "StoredMana (AccountOut a) = Mana a"
| "StoredMana (NFTOut n) = nft_Mana n"
| "StoredMana (FoundryOut f) = 0"
| "StoredMana (DelegationOut d) = 0"

fun Deposit :: "Output \<Rightarrow> BaseToken" where
  "Deposit (BasicOut e) = basic_Amount e"
| "Deposit (AccountOut a) = Amount a"
| "Deposit (NFTOut n) = nft_Amount n"
| "Deposit (FoundryOut f) = foundry_Amount f"
| "Deposit (DelegationOut d) = delegation_Amount d"

subsection \<open>Transaction, working set and parameters\<close>

record Allotment =
  allot_AccountID :: AccountID
  allot_Value :: Mana

record TransactionEssence =
  CreationTime :: SlotIndex
  Outputs :: "Output list"
  Allotments :: "Allotment list"

record OutputWithCreationTime =
  cot_Output :: Output
  cot_CreationTime :: SlotIndex

text \<open>
  The mana decay provider is an object with two methods whose bodies are not part
  of the sources modelled here; it is a record of the two functions.
\<close>

record ManaDecayProvider =
  StoredManaWithDecay :: "Mana \<Rightarrow> SlotIndex \<Rightarrow> SlotIndex \<Rightarrow> Mana"
  PotentialManaWithDecay :: "BaseToken \<Rightarrow> SlotIndex \<Rightarrow> SlotIndex \<Rightarrow> Mana"

text \<open>
  The working set.  \<open>UTXOInputsWithCreationTime\<close> is a Go map that is only summed over;
  it is the list of its entries.
\<close>

record WorkingSet =
  Tx :: TransactionEssence
  InChains :: "ChainID \<rightharpoonup> OutputWithCreationTime"
  OutChains :: "ChainID \<rightharpoonup> Output"
  BIC :: "AccountID \<rightharpoonup> BlockIssuanceCredits"
  UTXOInputsWithCreationTime :: "(OutputID \<times> OutputWithCreationTime) list"
  OutputsByType :: "OutputType \<Rightarrow> Output list"

record Params =
  WorkingSet :: WorkingSet
  LivenessThreshold :: SlotIndex
  ManaDecayProvider :: ManaDecayProvider


section \<open>Account state-transition validation\<close>

text \<open>\<open>accountGovernanceSTVF\<close>: the \<open>switch\<close> with its five cases in source order.\<close>

definition accountGovernanceSTVF :: "AccountOutput \<Rightarrow> AccountOutput \<Rightarrow> outcome" where
  "accountGovernanceSTVF current next =
     (if Amount current \<noteq> Amount next then Failure ErrInvalidAccountGovernanceTransition
      else if NativeTokens current \<noteq> NativeTokens next
        then Failure ErrInvalidAccountGovernanceTransition
      else if StateIndex current \<noteq> StateIndex next
        then Failure ErrInvalidAccountGovernanceTransition
      else if StateMetadata current \<noteq> StateMetadata next
        then Failure ErrInvalidAccountGovernanceTransition
      else if FoundryCounter current \<noteq> FoundryCounter next
        then Failure ErrInvalidAccountGovernanceTransition
      else Success)"

subsection \<open>Mana totals\<close>

text \<open>
  Modelled from the spec: \<open>vm.TotalManaIn\<close> is not part of the sources modelled here.  It is the sum,
  over the inputs, of the stored mana decayed to the transaction's creation slot plus the
  potential mana generated by the deposit, in the 64-bit arithmetic of \<open>Mana\<close>.
\<close>

fun TotalManaIn ::
  "ManaDecayProvider \<Rightarrow> SlotIndex \<Rightarrow> (OutputID \<times> OutputWithCreationTime) list \<Rightarrow> Mana" where
  "TotalManaIn mdp txCreationTime [] = 0"
| "TotalManaIn mdp txCreationTime ((outputID, input) # rest) =
     StoredManaWithDecay mdp (StoredMana (cot_Output input)) (cot_CreationTime input) txCreationTime
     + PotentialManaWithDecay mdp (Deposit (cot_Output input)) (cot_CreationTime input)
         txCreationTime
     + TotalManaIn mdp txCreationTime rest"

text \<open>
  Modelled from the spec: \<open>vm.TotalManaOut\<close> is not part of the sources modelled here.  It is the sum
  of the outputs' stored mana plus the sum of the allotted mana.
\<close>

definition TotalManaOut :: "Output list \<Rightarrow> Allotment list \<Rightarrow> Mana" where
  "TotalManaOut outputs allotments =
     sum_list (map StoredMana outputs) + sum_list (map allot_Value allotments)"

text \<open>
  Modelled from the spec: \<open>Allotments.Get\<close> is not part of the sources modelled here.  It is the mana
  allotted to the account, 0 when the account has no allotment.
\<close>

fun Allotments_Get :: "Allotment list \<Rightarrow> AccountID \<Rightarrow> Mana" where
  "Allotments_Get [] accountID = 0"
| "Allotments_Get (allotment # rest) accountID =
     (if allot_AccountID allotment = accountID then allot_Value allotment
      else Allotments_Get rest accountID)"

subsection \<open>Block-issuer transition\<close>

text \<open>
  The two loops of \<open>accountBlockIssuerSTVF\<close> that subtract the mana locked back to the
  account from \<open>manaOut\<close>.
\<close>

fun subtractLockedBasic :: "AccountID \<Rightarrow> SlotIndex \<Rightarrow> Output list \<Rightarrow> Mana \<Rightarrow> Mana" where
  "subtractLockedBasic accountID slot [] manaOut = manaOut"
| "subtractLockedBasic accountID slot (output # rest) manaOut =
     (case output of
        BasicOut basicOutput \<Rightarrow>
          subtractLockedBasic accountID slot rest
            (if basic_Manalock basicOutput accountID slot then manaOut - basic_Mana basicOutput
             else manaOut)
      | _ \<Rightarrow> subtractLockedBasic accountID slot rest manaOut)"

fun subtractLockedNFT :: "AccountID \<Rightarrow> SlotIndex \<Rightarrow> Output list \<Rightarrow> Mana \<Rightarrow> Mana" where
  "subtractLockedNFT accountID slot [] manaOut = manaOut"
| "subtractLockedNFT accountID slot (output # rest) manaOut =
     (case output of
        NFTOut nftOutput \<Rightarrow>
          subtractLockedNFT accountID slot rest
            (if nft_Manalock nftOutput accountID slot then manaOut - nft_Mana nftOutput
             else manaOut)
      | _ \<Rightarrow> subtractLockedNFT accountID slot rest manaOut)"

text \<open>
  The last part of \<open>accountBlockIssuerSTVF\<close> (from ``the Mana on the account on the input
  side must not be moved'' on): the two totals, the subtractions and the comparison.
\<close>

definition bi_manaIn :: "OutputWithCreationTime \<Rightarrow> AccountOutput \<Rightarrow> Params \<Rightarrow> Mana" where
  "bi_manaIn input current vmParams =
     (let ws = WorkingSet vmParams;
          manaDecayProvider = ManaDecayProvider vmParams;
          manaIn = TotalManaIn manaDecayProvider (CreationTime (Tx ws))
                     (UTXOInputsWithCreationTime ws);
          manaIn = manaIn - StoredManaWithDecay manaDecayProvider (Mana current)
                              (cot_CreationTime input) (CreationTime (Tx ws));
          manaIn = manaIn - PotentialManaWithDecay manaDecayProvider (Amount current)
                              (cot_CreationTime input) (CreationTime (Tx ws))
      in manaIn)"

definition bi_manaOut :: "AccountOutput \<Rightarrow> AccountOutput \<Rightarrow> Params \<Rightarrow> Mana" where
  "bi_manaOut current next vmParams =
     (let ws = WorkingSet vmParams;
          txSlotIndex = CreationTime (Tx ws);
          manaOut = TotalManaOut (Outputs (Tx ws)) (Allotments (Tx ws));
          manaOut = manaOut - Mana next;
          manaOut = manaOut - Allotments_Get (Allotments (Tx ws)) (AccountID current);
          manaOut = subtractLockedBasic (AccountID current)
                      (txSlotIndex + LivenessThreshold vmParams)
                      (OutputsByType ws OutputBasic) manaOut;
          manaOut = subtractLockedNFT (AccountID current)
                      (txSlotIndex + LivenessThreshold vmParams)
                      (OutputsByType ws OutputNFT) manaOut
      in manaOut)"

definition bi_manaCheck ::
  "OutputWithCreationTime \<Rightarrow> AccountOutput \<Rightarrow> AccountOutput \<Rightarrow> Params \<Rightarrow> outcome" where
  "bi_manaCheck input current next vmParams =
     (if bi_manaIn input current vmParams > bi_manaOut current next vmParams
      then Failure ErrInvalidBlockIssuerTransition
      else Success)"

text \<open>
  \<open>accountBlockIssuerSTVF\<close>.  \<open>currentBIFeat.ExpirySlot\<close> is read without a nil check: when
  the input side has no block-issuer feature the read is a nil-pointer dereference.
\<close>

definition accountBlockIssuerSTVF ::
  "OutputWithCreationTime \<Rightarrow> AccountOutput \<Rightarrow> Params \<Rightarrow> outcome" where
  "accountBlockIssuerSTVF input next vmParams =
     (case cot_Output input of
        AccountOut current \<Rightarrow>
          (case MustSet (Features current) of
             None \<Rightarrow> Panic
           | Some currentSet \<Rightarrow>
          (case MustSet (Features next) of
             None \<Rightarrow> Panic
           | Some nextSet \<Rightarrow>
             let currentBIFeat = FeatureSet_BlockIssuer currentSet;
                 nextBIFeat = FeatureSet_BlockIssuer nextSet in
             if currentBIFeat = None \<and> nextBIFeat = None then Success
             else
               (case BIC (WorkingSet vmParams) (AccountID current) of
                  None \<Rightarrow> Failure ErrInvalidBlockIssuerTransition
                | Some bic \<Rightarrow>
                    if Negative bic then Failure ErrInvalidBlockIssuerTransition
                    else
                      let txSlotIndex = CreationTime (Tx (WorkingSet vmParams)) in
                      (case currentBIFeat of
                         None \<Rightarrow> Panic
                       | Some cur \<Rightarrow>
                           if ExpirySlot cur \<ge> txSlotIndex then
                             (case nextBIFeat of
                                None \<Rightarrow> Failure ErrInvalidBlockIssuerTransition
                              | Some nxt \<Rightarrow>
                                  if ExpirySlot nxt \<noteq> 0 \<and> ExpirySlot nxt \<noteq> ExpirySlot cur
                                     \<and> ExpirySlot nxt < txSlotIndex + LivenessThreshold vmParams
                                  then Failure ErrInvalidBlockIssuerTransition
                                  else bi_manaCheck input current next vmParams)
                           else
                             (case nextBIFeat of
                                Some nxt \<Rightarrow>
                                  if ExpirySlot nxt \<noteq> 0
                                     \<and> ExpirySlot nxt < txSlotIndex + LivenessThreshold vmParams
                                  then Failure ErrInvalidBlockIssuerTransition
                                  else bi_manaCheck input current next vmParams
                              | None \<Rightarrow> bi_manaCheck input current next vmParams)))))
      | _ \<Rightarrow> Panic)"

subsection \<open>State transition, state change and destruction\<close>

text \<open>
  The foundry identifier is computed by \<open>FoundryOutput.ID\<close>, a method that is not part of
  the sources modelled here and can fail; it is the parameter \<open>fid\<close>.  \<open>MustID\<close> panics where \<open>ID\<close> fails.

  The loop of \<open>accountStateSTVF\<close> that counts the new foundries of the account; \<open>None\<close> is
  a panic (\<open>MustID\<close>, or the type assertion of the foundry's owner to an account address).
\<close>

fun countNewFoundries ::
  "(FoundryOutput \<Rightarrow> error + FoundryID) \<Rightarrow> (ChainID \<rightharpoonup> OutputWithCreationTime) \<Rightarrow> AccountID \<Rightarrow>
   Output list \<Rightarrow> 32 word \<Rightarrow> 32 word option" where
  "countNewFoundries fid inChains nextAccountID [] seen = Some seen"
| "countNewFoundries fid inChains nextAccountID (output # rest) seen =
     (case output of
        FoundryOut foundryOutput \<Rightarrow>
          (case fid foundryOutput of
             Inl err \<Rightarrow> None
           | Inr foundryID \<Rightarrow>
               if inChains (FoundryChain foundryID) \<noteq> None
               then countNewFoundries fid inChains nextAccountID rest seen
               else
                 (case foundry_Ident foundryOutput of
                    AccountAddress foundryAccountID \<Rightarrow>
                      if \<not> Matches foundryAccountID (AccountChain nextAccountID)
                      then countNewFoundries fid inChains nextAccountID rest seen
                      else countNewFoundries fid inChains nextAccountID rest (seen + 1)
                  | _ \<Rightarrow> None))
      | _ \<Rightarrow> countNewFoundries fid inChains nextAccountID rest seen)"

definition accountStateSTVF ::
  "(FoundryOutput \<Rightarrow> error + FoundryID) \<Rightarrow> OutputWithCreationTime \<Rightarrow> AccountOutput \<Rightarrow>
   Params \<Rightarrow> outcome" where
  "accountStateSTVF fid input next vmParams =
     (case cot_Output input of
        AccountOut current \<Rightarrow>
          if StateController current \<noteq> StateController next
            then Failure ErrInvalidAccountStateTransition
          else if GovernorAddress current \<noteq> GovernorAddress next
            then Failure ErrInvalidAccountStateTransition
          else if FoundryCounter current > FoundryCounter next
            then Failure ErrInvalidAccountStateTransition
          else if StateIndex current + 1 \<noteq> StateIndex next
            then Failure ErrInvalidAccountStateTransition
          else
            (case MustSet (Features current) of
               None \<Rightarrow> Panic
             | Some currentSet \<Rightarrow>
            (case MustSet (Features next) of
               None \<Rightarrow> Panic
             | Some nextSet \<Rightarrow>
            (case FeatureUnchanged FeatureMetadata currentSet nextSet of
               Some err \<Rightarrow> Failure ErrInvalidAccountStateTransition
             | None \<Rightarrow>
                 if FoundryCounter current = FoundryCounter next
                 then accountBlockIssuerSTVF input next vmParams
                 else
                   (case countNewFoundries fid (InChains (WorkingSet vmParams)) (AccountID next)
                           (Outputs (Tx (WorkingSet vmParams))) 0 of
                      None \<Rightarrow> Panic
                    | Some seenNewFoundriesOfAccount \<Rightarrow>
                        let expectedNewFoundriesCount =
                              FoundryCounter next - FoundryCounter current in
                        if expectedNewFoundriesCount \<noteq> seenNewFoundriesOfAccount
                        then Failure ErrInvalidAccountStateTransition
                        else accountBlockIssuerSTVF input next vmParams))))
      | _ \<Rightarrow> Panic)"

definition accountStateChangeValid ::
  "(FoundryOutput \<Rightarrow> error + FoundryID) \<Rightarrow> OutputWithCreationTime \<Rightarrow> Params \<Rightarrow>
   AccountOutput \<Rightarrow> outcome" where
  "accountStateChangeValid fid input vmParams next =
     (case cot_Output input of
        AccountOut current \<Rightarrow>
          if \<not> Features_Equal (ImmutableFeatures current) (ImmutableFeatures next)
            then Failure ErrInvalidAccountStateTransition
          else if StateIndex current = StateIndex next
            then accountGovernanceSTVF current next
          else accountStateSTVF fid input next vmParams
      | _ \<Rightarrow> Panic)"

definition accountDestructionValid :: "OutputWithCreationTime \<Rightarrow> Params \<Rightarrow> outcome" where
  "accountDestructionValid input vmParams =
     (case cot_Output input of
        AccountOut outputToDestroy \<Rightarrow>
          (case MustSet (Features outputToDestroy) of
             None \<Rightarrow> Panic
           | Some featureSet \<Rightarrow>
              (case FeatureSet_BlockIssuer featureSet of
                 Some BIFeat \<Rightarrow>
                   if ExpirySlot BIFeat = 0
                      \<or> ExpirySlot BIFeat \<ge> CreationTime (Tx (WorkingSet vmParams))
                   then Failure ErrInvalidBlockIssuerTransition
                   else
                     (case BIC (WorkingSet vmParams) (AccountID outputToDestroy) of
                        Some bic \<Rightarrow>
                          if Negative bic then Failure ErrInvalidBlockIssuerTransition
                          else Success
                      | None \<Rightarrow> Failure ErrInvalidBlockIssuerTransition)
               | None \<Rightarrow> Success))
      | _ \<Rightarrow> Panic)"

section \<open>Foundry genesis validation\<close>

text \<open>
  The loop of \<open>foundrySerialNumberValid\<close> over the transaction's outputs.  It skips what
  is not a foundry, foundries of another owner and foundries that are not new, stops at the
  first output whose identifier is \<open>thisFoundryID\<close>, and fails on a new foundry of the
  same owner whose serial number is not smaller.  An error of \<open>ID\<close> is returned as it is.
\<close>

fun serialNumberOrder ::
  "(FoundryOutput \<Rightarrow> error + FoundryID) \<Rightarrow> (ChainID \<rightharpoonup> OutputWithCreationTime) \<Rightarrow>
   FoundryOutput \<Rightarrow> FoundryID \<Rightarrow> Output list \<Rightarrow> outcome" where
  "serialNumberOrder fid inChains current thisFoundryID [] = Success"
| "serialNumberOrder fid inChains current thisFoundryID (output # rest) =
     (case output of
        FoundryOut otherFoundryOutput \<Rightarrow>
          if foundry_Ident otherFoundryOutput \<noteq> foundry_Ident current
          then serialNumberOrder fid inChains current thisFoundryID rest
          else
            (case fid otherFoundryOutput of
               Inl err \<Rightarrow> Failure err
             | Inr otherFoundryID \<Rightarrow>
                 if inChains (FoundryChain otherFoundryID) \<noteq> None
                 then serialNumberOrder fid inChains current thisFoundryID rest
                 else if otherFoundryID = thisFoundryID then Success
                 else if SerialNumber otherFoundryOutput \<ge> SerialNumber current
                 then Failure ErrInvalidFoundryStateTransition
                 else serialNumberOrder fid inChains current thisFoundryID rest)
      | _ \<Rightarrow> serialNumberOrder fid inChains current thisFoundryID rest)"

definition foundrySerialNumberValid ::
  "(FoundryOutput \<Rightarrow> error + FoundryID) \<Rightarrow> FoundryOutput \<Rightarrow> Params \<Rightarrow> AccountOutput \<Rightarrow>
   AccountOutput \<Rightarrow> FoundryID \<Rightarrow> outcome" where
  "foundrySerialNumberValid fid current vmParams inAccount outAccount thisFoundryID =
     (let startSerial = FoundryCounter inAccount;
          endIncSerial = FoundryCounter outAccount in
      if startSerial \<ge> SerialNumber current \<or> SerialNumber current > endIncSerial
      then Failure ErrInvalidFoundryStateTransition
      else serialNumberOrder fid (InChains (WorkingSet vmParams)) current thisFoundryID
             (Outputs (Tx (WorkingSet vmParams))))"

text \<open>
  \<open>foundryGenesisValid\<close>.  The token scheme's genesis check (with
  \<open>MustNativeTokenID\<close> and the native-token sums it reads) is not part of the sources modelled here;
  it is the parameter \<open>tokenSchemeGenesis\<close>.  The three type assertions panic when they
  fail.
\<close>

definition foundryGenesisValid ::
  "(FoundryOutput \<Rightarrow> Params \<Rightarrow> outcome) \<Rightarrow> (FoundryOutput \<Rightarrow> error + FoundryID) \<Rightarrow>
   FoundryOutput \<Rightarrow> Params \<Rightarrow> FoundryID \<Rightarrow> outcome" where
  "foundryGenesisValid tokenSchemeGenesis fid current vmParams thisFoundryID =
     (case tokenSchemeGenesis current vmParams of
        Failure err \<Rightarrow> Failure err
      | Panic \<Rightarrow> Panic
      | Success \<Rightarrow>
          (case foundry_Ident current of
             AccountAddress accountID \<Rightarrow>
               (case InChains (WorkingSet vmParams) (AccountChain accountID) of
                  None \<Rightarrow> Failure ErrInvalidFoundryStateTransition
                | Some inAccount \<Rightarrow>
                    (case OutChains (WorkingSet vmParams) (AccountChain accountID) of
                       None \<Rightarrow> Failure ErrInvalidFoundryStateTransition
                     | Some outAccount \<Rightarrow>
                         (case cot_Output inAccount of
                            AccountOut inAccountOutput \<Rightarrow>
                              (case outAccount of
                                 AccountOut outAccountOutput \<Rightarrow>
                                   foundrySerialNumberValid fid current vmParams inAccountOutput
                                     outAccountOutput thisFoundryID
                               | _ \<Rightarrow> Panic)
                          | _ \<Rightarrow> Panic)))
           | _ \<Rightarrow> Panic))"

section \<open>The validation pipeline\<close>

text \<open>
  The seven checks are functions of package \<open>vm\<close>, not part of the sources modelled here; each is
  named by a constructor, and \<open>ExecFuncCustom\<close> names a function supplied by the caller.
  What a check does is the parameter \<open>run\<close> of the definitions below: \<open>run f vmParams\<close>
  is either the violation the check reports or the parameters it leaves behind (the
  checks share the working set through the \<open>vmParams\<close> pointer).
\<close>

datatype ExecFunc =
    ExecFuncTimelocks
  | ExecFuncInputUnlocks
  | ExecFuncSenderUnlocked
  | ExecFuncBalancedDeposit
  | ExecFuncBalancedNativeTokens
  | ExecFuncChainTransitions
  | ExecFuncBalancedMana
  | ExecFuncCustom string

text \<open>\<open>NewVirtualMachine\<close>: the \<open>execList\<close> of the virtual machine it returns.\<close>

definition NewVirtualMachine :: "ExecFunc list" where
  "NewVirtualMachine =
     [ExecFuncTimelocks,
      ExecFuncInputUnlocks,
      ExecFuncSenderUnlocked,
      ExecFuncBalancedDeposit,
      ExecFuncBalancedNativeTokens,
      ExecFuncChainTransitions,
      ExecFuncBalancedMana]"

text \<open>
  Modelled from the spec: \<open>vm.RunVMFuncs\<close> is not part of the sources modelled here.  The pipeline
  runs the checks of the list in order against the working set and is fail-fast: the first
  violated check aborts the run with its violation.  The result is paired with the list of
  the checks that were run.
\<close>

fun RunVMFuncs ::
  "(ExecFunc \<Rightarrow> Params \<Rightarrow> error + Params) \<Rightarrow> Params \<Rightarrow> ExecFunc list \<Rightarrow>
   ExecFunc list \<times> error option" where
  "RunVMFuncs run vmParams [] = ([], None)"
| "RunVMFuncs run vmParams (execFunc # rest) =
     (case run execFunc vmParams of
        Inl err \<Rightarrow> ([execFunc], Some err)
      | Inr vmParams' \<Rightarrow>
          (case RunVMFuncs run vmParams' rest of (executed, result) \<Rightarrow> (execFunc # executed, result)))"

text \<open>
  \<open>virtualMachine.Execute\<close>.  \<open>vm.NewVMParamsWorkingSet\<close> is not part of the sources modelled here;
  it is the parameter \<open>newWorkingSet\<close>, which fails or yields the working set.
\<close>

definition Execute ::
  "('tx \<Rightarrow> 'inputs \<Rightarrow> error + WorkingSet) \<Rightarrow> (ExecFunc \<Rightarrow> Params \<Rightarrow> error + Params) \<Rightarrow>
   'tx \<Rightarrow> Params \<Rightarrow> 'inputs \<Rightarrow> ExecFunc list \<Rightarrow> ExecFunc list \<times> error option" where
  "Execute newWorkingSet run t vmParams inputs overrideFuncs =
     (case newWorkingSet t inputs of
        Inl err \<Rightarrow> ([], Some err)
      | Inr workingSet \<Rightarrow>
          if length overrideFuncs > 0
          then RunVMFuncs run (vmParams\<lparr>WorkingSet := workingSet\<rparr>) overrideFuncs
          else RunVMFuncs run (vmParams\<lparr>WorkingSet := workingSet\<rparr>) NewVirtualMachine)"

text \<open>
  \<open>passed run vmParams fs\<close>: no check of \<open>fs\<close>, run in order from \<open>vmParams\<close>, is
  violated; the value is the parameters they leave behind.
\<close>

fun passed ::
  "(ExecFunc \<Rightarrow> Params \<Rightarrow> error + Params) \<Rightarrow> Params \<Rightarrow> ExecFunc list \<Rightarrow> Params option" where
  "passed run vmParams [] = Some vmParams"
| "passed run vmParams (execFunc # rest) =
     (case run execFunc vmParams of
        Inl err \<Rightarrow> None
      | Inr vmParams' \<Rightarrow> passed run vmParams' rest)"

section \<open>The transaction builder\<close>

type_synonym Signature = bytes

datatype Unlock =
    SignatureUnlock Signature
  | ReferenceUnlock "16 word"
  | AccountUnlock "16 word"
  | NFTUnlock "16 word"

datatype 'a result = Returned 'a | Failed error | Panicked

record TxInput =
  UnlockTarget :: Address
  InputID :: OutputID
  txin_Input :: Output

text \<open>
  The builder with the fields \<open>Build\<close> reads: \<open>essence_Inputs\<close> is \<open>essence.Inputs\<close>, a list
  of UTXO inputs given by their output identifiers; \<open>b_inputs\<close> is the field \<open>inputs\<close>
  and \<open>txin_Input\<close> the field \<open>Input\<close> of \<open>TxInput\<close>.
\<close>

record TransactionBuilder =
  occurredBuildErr :: "error option"
  essence_Inputs :: "OutputID list"
  b_inputs :: "OutputID \<rightharpoonup> Output"
  inputOwner :: "OutputID \<rightharpoonup> Address"

record Transaction =
  tx_Inputs :: "OutputID list"
  tx_InputsCommitment :: bytes
  tx_Unlocks :: "Unlock list"

definition NewTransactionBuilder :: TransactionBuilder where
  "NewTransactionBuilder =
     \<lparr>occurredBuildErr = None, essence_Inputs = [], b_inputs = Map.empty,
      inputOwner = Map.empty\<rparr>"

definition AddInput :: "TransactionBuilder \<Rightarrow> TxInput \<Rightarrow> TransactionBuilder" where
  "AddInput b input =
     b\<lparr>inputOwner := (inputOwner b)(InputID input \<mapsto> UnlockTarget input),
       essence_Inputs := essence_Inputs b @ [InputID input],
       b_inputs := (b_inputs b)(InputID input \<mapsto> txin_Input input)\<rparr>"

text \<open>The type assertion \<open>addr.(iotago.ChainAddress)\<close>.\<close>

fun isChainAddress :: "Address \<Rightarrow> bool" where
  "isChainAddress (AccountAddress a) = True"
| "isChainAddress (NFTAddress n) = True"
| "isChainAddress _ = False"

text \<open>\<open>addReferentialUnlock\<close>; \<open>uint16(pos)\<close> keeps the low 16 bits of the position.\<close>

fun addReferentialUnlock :: "Address \<Rightarrow> Unlock list \<Rightarrow> nat \<Rightarrow> Unlock list" where
  "addReferentialUnlock (AccountAddress a) unlocks pos = unlocks @ [AccountUnlock (of_nat pos)]"
| "addReferentialUnlock (NFTAddress n) unlocks pos = unlocks @ [NFTUnlock (of_nat pos)]"
| "addReferentialUnlock addr unlocks pos = unlocks @ [ReferenceUnlock (of_nat pos)]"

text \<open>
  \<open>chainAddress input\<close> is \<open>chainInput.Chain().ToAddress()\<close> when the input is a chain
  output with an addressable chain identifier: account and NFT outputs are, foundry (and
  delegation) identifiers are not addressable.
\<close>

fun chainAddress :: "Output \<Rightarrow> Address option" where
  "chainAddress (AccountOut a) = Some (AccountAddress (AccountID a))"
| "chainAddress (NFTOut n) = Some (NFTAddress (nft_NFTID n))"
| "chainAddress _ = None"

text \<open>
  \<open>Address.Key\<close> is not part of the sources modelled here for most address kinds; it is the
  parameter \<open>key\<close>.  \<open>addChainAsUnlocked\<close> on a nil input (an identifier without an entry
  in \<open>b.inputs\<close>) does nothing.
\<close>

definition addChainAsUnlocked ::
  "(Address \<Rightarrow> string) \<Rightarrow> Output option \<Rightarrow> nat \<Rightarrow> (string \<rightharpoonup> nat) \<Rightarrow> (string \<rightharpoonup> nat)" where
  "addChainAsUnlocked key input posUnlocked prevUnlocked =
     (case input of
        None \<Rightarrow> prevUnlocked
      | Some chainInput \<Rightarrow>
          (case chainAddress chainInput of
             None \<Rightarrow> prevUnlocked
           | Some addr \<Rightarrow> prevUnlocked(key addr \<mapsto> posUnlocked)))"

text \<open>\<open>OutputIDs.OrderedSet\<close>: the outputs of the set in the order of the identifiers.\<close>

definition OrderedSet :: "OutputID list \<Rightarrow> (OutputID \<rightharpoonup> Output) \<Rightarrow> Output option list" where
  "OrderedSet inputIDs outputSet = map outputSet inputIDs"

text \<open>
  The unlock loop of \<open>Build\<close>, over the input references paired with \<open>inputs[i]\<close>, from
  index \<open>i\<close> on.  An input without an owner has a nil address, on which \<open>Key\<close> panics.
  The error for a chain address that is not unlocked has no sentinel in the source; it is
  \<open>ErrChainNotUnlocked\<close> here.
\<close>

fun assignUnlocks ::
  "(Address \<Rightarrow> string) \<Rightarrow> (Address \<Rightarrow> bytes \<Rightarrow> error + Signature) \<Rightarrow> bytes \<Rightarrow>
   (OutputID \<rightharpoonup> Address) \<Rightarrow> nat \<Rightarrow> (OutputID \<times> Output option) list \<Rightarrow> (string \<rightharpoonup> nat) \<Rightarrow>
   Unlock list \<Rightarrow> Unlock list result" where
  "assignUnlocks key sign txEssenceData owner i [] unlockPos unlocks = Returned unlocks"
| "assignUnlocks key sign txEssenceData owner i ((inputRef, input) # rest) unlockPos unlocks =
     (case owner inputRef of
        None \<Rightarrow> Panicked
      | Some addr \<Rightarrow>
          (case unlockPos (key addr) of
             None \<Rightarrow>
               if isChainAddress addr then Failed ErrChainNotUnlocked
               else
                 (case sign addr txEssenceData of
                    Inl err \<Rightarrow> Failed err
                  | Inr signature \<Rightarrow>
                      assignUnlocks key sign txEssenceData owner (Suc i) rest
                        ((addChainAsUnlocked key input i unlockPos)(key addr \<mapsto> i))
                        (unlocks @ [SignatureUnlock signature]))
           | Some pos \<Rightarrow>
               assignUnlocks key sign txEssenceData owner (Suc i) rest
                 (addChainAsUnlocked key input i unlockPos)
                 (addReferentialUnlock addr unlocks pos)))"

text \<open>
  \<open>Build\<close>.  \<open>inputs.Commitment()\<close> and \<open>essence.SigningMessage()\<close> are not part of the
  sources modelled here; they are the parameters \<open>commitment\<close> and \<open>signingMessage\<close>.  The protocol
  parameters and the signer may be nil.
\<close>

definition Build ::
  "(Address \<Rightarrow> string) \<Rightarrow> (Output option list \<Rightarrow> error + bytes) \<Rightarrow>
   (OutputID list \<Rightarrow> bytes \<Rightarrow> error + bytes) \<Rightarrow> TransactionBuilder \<Rightarrow> 'pp option \<Rightarrow>
   (Address \<Rightarrow> bytes \<Rightarrow> error + Signature) option \<Rightarrow> Transaction result" where
  "Build key commitment signingMessage b protoParams signer =
     (case occurredBuildErr b of
        Some err \<Rightarrow> Failed err
      | None \<Rightarrow>
     (case protoParams of
        None \<Rightarrow> Failed ErrTransactionBuilder
      | Some params \<Rightarrow>
     (case signer of
        None \<Rightarrow> Failed ErrTransactionBuilder
      | Some sign \<Rightarrow>
          let inputIDs = essence_Inputs b;
              orderedInputs = OrderedSet inputIDs (b_inputs b) in
          (case commitment orderedInputs of
             Inl err \<Rightarrow> Failed err
           | Inr inputsCommitment \<Rightarrow>
          (case signingMessage inputIDs inputsCommitment of
             Inl err \<Rightarrow> Failed err
           | Inr txEssenceData \<Rightarrow>
          (case assignUnlocks key sign txEssenceData (inputOwner b) 0
                  (zip inputIDs orderedInputs) Map.empty [] of
             Returned unlocks \<Rightarrow>
               Returned \<lparr>tx_Inputs = inputIDs, tx_InputsCommitment = inputsCommitment,
                         tx_Unlocks = unlocks\<rparr>
           | Failed err \<Rightarrow> Failed err
           | Panicked \<Rightarrow> Panicked))))))"

subsection \<open>Positions of first occurrence and of last unlocking\<close>

text \<open>
  \<open>firstIndex P xs\<close> is the first position of \<open>xs\<close> that satisfies \<open>P\<close>, \<open>lastIndex P xs\<close>
  the last one.  \<open>unlockedChain input\<close> is the chain address that consuming \<open>input\<close>
  marks as unlocked, if any.
\<close>

fun firstIndex :: "('a \<Rightarrow> bool) \<Rightarrow> 'a list \<Rightarrow> nat option" where
  "firstIndex P [] = None"
| "firstIndex P (x # xs) = (if P x then Some 0 else map_option Suc (firstIndex P xs))"

fun lastIndex :: "('a \<Rightarrow> bool) \<Rightarrow> 'a list \<Rightarrow> nat option" where
  "lastIndex P [] = None"
| "lastIndex P (x # xs) =
     (case lastIndex P xs of
        Some p \<Rightarrow> Some (Suc p)
      | None \<Rightarrow> if P x then Some 0 else None)"

definition unlockedChain :: "Output option \<Rightarrow> Address option" where
  "unlockedChain input = (case input of None \<Rightarrow> None | Some out \<Rightarrow> chainAddress out)"

text \<open>The addresses a build run looks up keys of: the owners and the unlocked chains.\<close>

definition builderAddresses :: "TransactionBuilder \<Rightarrow> Address set" where
  "builderAddresses b =
     {addr. \<exists>inputRef \<in> set (essence_Inputs b).
              inputOwner b inputRef = Some addr \<or>
              unlockedChain (b_inputs b inputRef) = Some addr}"

text \<open>The referential unlock for an address, by the kind of the address.\<close>

fun referentialUnlock :: "Address \<Rightarrow> nat \<Rightarrow> Unlock" where
  "referentialUnlock (AccountAddress a) pos = AccountUnlock (of_nat pos)"
| "referentialUnlock (NFTAddress n) pos = NFTUnlock (of_nat pos)"
| "referentialUnlock addr pos = ReferenceUnlock (of_nat pos)"

text \<open>
  The words of the specification.  \<open>claimedUnlock\<close> is the unlock of an input owned by
  \<open>addr\<close> that comes after the input references \<open>before\<close>: the first time the address is
  seen among the owners it receives a fresh signature unlock (failing, \<open>None\<close>, if it is a
  chain address that no consumed chain output has unlocked yet); every subsequent
  occurrence receives a referential unlock, of the kind of the address, pointing at the
  position of the first occurrence.
\<close>

definition claimedUnlock ::
  "(Address \<Rightarrow> bytes \<Rightarrow> error + Signature) \<Rightarrow> bytes \<Rightarrow> (OutputID \<rightharpoonup> Address) \<Rightarrow>
   (OutputID \<rightharpoonup> Output) \<Rightarrow> OutputID list \<Rightarrow> Address \<Rightarrow> Unlock option" where
  "claimedUnlock sign txEssenceData owner m before addr =
     (case firstIndex (\<lambda>inputRef. owner inputRef = Some addr) before of
        None \<Rightarrow>
          if isChainAddress addr \<and>
             lastIndex (\<lambda>inputRef. unlockedChain (m inputRef) = Some addr) before = None
          then None
          else
            (case sign addr txEssenceData of
               Inl err \<Rightarrow> None
             | Inr signature \<Rightarrow> Some (SignatureUnlock signature))
      | Some pos \<Rightarrow> Some (referentialUnlock addr pos))"

text \<open>
  The assignment that \<open>Build\<close> is shown to compute.  \<open>builtUnlock\<close> is the unlock of an
  input owned by \<open>addr\<close> that comes after the input references \<open>before\<close>: for a chain
  address, always a referential unlock (\<open>AccountUnlock\<close> or \<open>NFTUnlock\<close>) pointing at the
  last position at which a consumed chain output unlocked that address (\<open>None\<close> when there
  is none); for any other address a fresh signature unlock at its first occurrence among
  the owners and a \<open>ReferenceUnlock\<close> pointing at that first occurrence afterwards.
\<close>

definition builtUnlock ::
  "(Address \<Rightarrow> bytes \<Rightarrow> error + Signature) \<Rightarrow> bytes \<Rightarrow> (OutputID \<rightharpoonup> Address) \<Rightarrow>
   (OutputID \<rightharpoonup> Output) \<Rightarrow> OutputID list \<Rightarrow> Address \<Rightarrow> Unlock option" where
  "builtUnlock sign txEssenceData owner m before addr =
     (if isChainAddress addr
      then map_option (referentialUnlock addr)
             (lastIndex (\<lambda>inputRef. unlockedChain (m inputRef) = Some addr) before)
      else
        (case firstIndex (\<lambda>inputRef. owner inputRef = Some addr) before of
           None \<Rightarrow>
             (case sign addr txEssenceData of
                Inl err \<Rightarrow> None
              | Inr signature \<Rightarrow> Some (SignatureUnlock signature))
         | Some pos \<Rightarrow> Some (ReferenceUnlock (of_nat pos))))"

text \<open>
  The loop invariant of \<open>Build\<close>: after the input references \<open>done\<close>, the position map
  holds, under the key of each address, the last unlocking position of a chain address
  and the first occurrence of any other address.
\<close>

definition unlockPosInvariant ::
  "(Address \<Rightarrow> string) \<Rightarrow> Address set \<Rightarrow> (OutputID \<rightharpoonup> Address) \<Rightarrow> (OutputID \<rightharpoonup> Output) \<Rightarrow>
   OutputID list \<Rightarrow> (string \<rightharpoonup> nat) \<Rightarrow> bool" where
  "unlockPosInvariant key A owner m done unlockPos =
     (\<forall>a \<in> A. unlockPos (key a) =
        (if isChainAddress a
         then lastIndex (\<lambda>inputRef. unlockedChain (m inputRef) = Some a) done
         else firstIndex (\<lambda>inputRef. owner inputRef = Some a) done))"

section \<open>Concrete transactions\<close>

text \<open>
  Concrete objects on which the theorems below are instantiated: two account identifiers,
  an account output, a decay provider without decay or generation, and a working set built
  around one consumed account output.
\<close>

definition idA :: AccountID where "idA = replicate 32 7"
definition idB :: AccountID where "idB = replicate 32 8"

definition ex_current :: AccountOutput where
  "ex_current = \<lparr>Amount = 100, Mana = 0, NativeTokens = [], AccountID = idA, StateIndex = 0,
     StateMetadata = [], FoundryCounter = 5, StateController = Ed25519Address [1],
     GovernorAddress = Ed25519Address [2], Features = [], ImmutableFeatures = []\<rparr>"

definition ex_provider :: ManaDecayProvider where
  "ex_provider = \<lparr>StoredManaWithDecay = (\<lambda>m c t. m), PotentialManaWithDecay = (\<lambda>a c t. 0)\<rparr>"

definition ex_input :: "AccountOutput \<Rightarrow> OutputWithCreationTime" where
  "ex_input a = \<lparr>cot_Output = AccountOut a, cot_CreationTime = 20\<rparr>"

definition ex_params ::
  "AccountOutput \<Rightarrow> Output list \<Rightarrow> Allotment list \<Rightarrow> (AccountID \<rightharpoonup> BlockIssuanceCredits) \<Rightarrow>
   Params" where
  "ex_params a outs allots bic =
     \<lparr>WorkingSet =
        \<lparr>Tx = \<lparr>CreationTime = 20, Outputs = outs, Allotments = allots\<rparr>,
         InChains = [AccountChain (AccountID a) \<mapsto> ex_input a],
         OutChains = Map.empty,
         BIC = bic,
         UTXOInputsWithCreationTime = [([0], ex_input a)],
         OutputsByType = (\<lambda>t. [])\<rparr>,
      LivenessThreshold = 10,
      ManaDecayProvider = ex_provider\<rparr>"

definition ex_fid :: "FoundryOutput \<Rightarrow> error + FoundryID" where
  "ex_fid f =
     Inr (case foundry_Ident f of
            AccountAddress a \<Rightarrow> a @ [ucast (SerialNumber f), TokenSchemeType f]
          | _ \<Rightarrow> [])"

definition ex_next1 :: AccountOutput where "ex_next1 = ex_current\<lparr>StateIndex := 1\<rparr>"
definition ex_next2 :: AccountOutput where "ex_next2 = ex_current\<lparr>StateIndex := 2\<rparr>"

text \<open>
  A work-score structure whose factors all fit the type: every product of
  \<open>MaxBlockWork\<close> is at most 1, only the running sum exceeds 32 bits.
\<close>

definition ex_wrapWS :: WorkScoreStructure where
  "ex_wrapWS = \<lparr>DataKibibyte = 0, Block = 0xFFFFFFFF, MissingParent = 1, Input = 0,
     ContextInput = 0, Output = 0, NativeToken = 0, Staking = 0, BlockIssuer = 0,
     Allotment = 0, SignatureEd25519 = 0, MinStrongParentsThreshold = 1\<rparr>"

text \<open>An account output with an active block-issuer feature (expiry slot 100) and 100 mana.\<close>

definition ex_issuer :: AccountOutput where
  "ex_issuer = ex_current\<lparr>Mana := 100, Features := [BlockIssuerFeature [[1]] 100]\<rparr>"

text \<open>
  Transitions of \<open>ex_issuer\<close>: \<open>ex_issuer_removed\<close> drops the feature and keeps the state
  index (a governance transition); \<open>ex_issuer_next\<close> only bumps the state index;
  \<open>ex_issuer_drained\<close> bumps the state index and keeps no mana, while \<open>ex_allot_B\<close> allots
  100 mana to another account.  \<open>ex_issuer_added\<close> is the successor of \<open>ex_current\<close> that
  gains a block-issuer feature.  \<open>ex_expired\<close> carries a feature that expired at slot 10.
\<close>

definition ex_issuer_removed :: AccountOutput where
  "ex_issuer_removed = ex_issuer\<lparr>Features := []\<rparr>"

definition ex_issuer_next :: AccountOutput where
  "ex_issuer_next = ex_issuer\<lparr>StateIndex := 1\<rparr>"

definition ex_issuer_drained :: AccountOutput where
  "ex_issuer_drained = ex_issuer\<lparr>StateIndex := 1, Mana := 0\<rparr>"

definition ex_allot_B :: Allotment where
  "ex_allot_B = \<lparr>allot_AccountID = idB, allot_Value = 100\<rparr>"

definition ex_issuer_added :: AccountOutput where
  "ex_issuer_added = ex_current\<lparr>StateIndex := 1, Features := [BlockIssuerFeature [[1]] 100]\<rparr>"

definition ex_expired :: AccountOutput where
  "ex_expired = ex_current\<lparr>Features := [BlockIssuerFeature [[1]] 10]\<rparr>"

text \<open>
  A second consumed output, a basic output holding 50 mana, and the successor of
  \<open>ex_issuer\<close> that receives it; \<open>ex_params_received\<close> is the working set of that
  transaction.
\<close>

definition ex_basic50 :: OutputWithCreationTime where
  "ex_basic50 =
     \<lparr>cot_Output = BasicOut \<lparr>basic_Amount = 0, basic_Mana = 50,
                               basic_Ident = Ed25519Address [1],
                               basic_Manalock = (\<lambda>accountID slot. False)\<rparr>,
      cot_CreationTime = 20\<rparr>"

definition ex_issuer_topped :: AccountOutput where
  "ex_issuer_topped = ex_issuer\<lparr>StateIndex := 1, Mana := 150\<rparr>"

definition ex_params_received :: Params where
  "ex_params_received =
     \<lparr>WorkingSet =
        \<lparr>Tx = \<lparr>CreationTime = 20, Outputs = [AccountOut ex_issuer_topped], Allotments = []\<rparr>,
         InChains = [AccountChain idA \<mapsto> ex_input ex_issuer],
         OutChains = Map.empty,
         BIC = [idA \<mapsto> 0],
         UTXOInputsWithCreationTime = [([0], ex_input ex_issuer), ([1], ex_basic50)],
         OutputsByType = (\<lambda>t. [])\<rparr>,
      LivenessThreshold = 10,
      ManaDecayProvider = ex_provider\<rparr>"

text \<open>
  Foundries anchored to the account \<open>idA\<close>, whose foundry counter goes from 5
  (\<open>ex_current\<close>) to 6 (\<open>ex_counter6\<close>).
\<close>

definition ex_foundry :: "32 word \<Rightarrow> FoundryOutput" where
  "ex_foundry serial =
     \<lparr>foundry_Amount = 0, SerialNumber = serial, TokenSchemeType = 0,
      foundry_Ident = AccountAddress idA\<rparr>"

definition ex_counter6 :: AccountOutput where
  "ex_counter6 = ex_current\<lparr>StateIndex := 1, FoundryCounter := 6\<rparr>"

definition ex_foundry_params :: "Output list \<Rightarrow> Params" where
  "ex_foundry_params outs =
     \<lparr>WorkingSet =
        \<lparr>Tx = \<lparr>CreationTime = 20, Outputs = outs, Allotments = []\<rparr>,
         InChains = [AccountChain idA \<mapsto> ex_input ex_current],
         OutChains = [AccountChain idA \<mapsto> AccountOut ex_counter6],
         BIC = Map.empty,
         UTXOInputsWithCreationTime = [([0], ex_input ex_current)],
         OutputsByType = (\<lambda>t. [])\<rparr>,
      LivenessThreshold = 10,
      ManaDecayProvider = ex_provider\<rparr>"

text \<open>
  A pipeline run in which the base-token deposit check is the first violated one, and the
  mana check would be violated too.
\<close>

definition ex_run :: "ExecFunc \<Rightarrow> Params \<Rightarrow> error + Params" where
  "ex_run f vmParams =
     (if f = ExecFuncBalancedDeposit then Inl (ErrExternal ''deposit'')
      else if f = ExecFuncBalancedMana then Inl (ErrExternal ''mana'')
      else Inr vmParams)"

definition ex_newWorkingSet :: "unit \<Rightarrow> unit \<Rightarrow> error + WorkingSet" where
  "ex_newWorkingSet t inputs = Inr (WorkingSet (ex_params ex_current [] [] Map.empty))"

text \<open>
  Builder runs: a key function that tags the address kind, a signer, and two builders.
  \<open>ex_builder_same\<close> has two basic inputs owned by the same Ed25519 address;
  \<open>ex_builder_chain\<close> consumes the account output \<open>ex_current\<close> (owned by an Ed25519
  address) and then a basic output owned by the address of that account.
\<close>

definition ex_key :: "Address \<Rightarrow> string" where
  "ex_key addr =
     (case addr of
        Ed25519Address h \<Rightarrow> CHR ''e'' # map (\<lambda>w. char_of (unat w)) h
      | AccountAddress h \<Rightarrow> CHR ''a'' # map (\<lambda>w. char_of (unat w)) h
      | NFTAddress h \<Rightarrow> CHR ''n'' # map (\<lambda>w. char_of (unat w)) h
      | RestrictedEd25519Address h c \<Rightarrow> CHR ''r'' # map (\<lambda>w. char_of (unat w)) (h @ c)
      | RestrictedAccountAddress h c \<Rightarrow> CHR ''s'' # map (\<lambda>w. char_of (unat w)) (h @ c))"

definition ex_sign :: "Address \<Rightarrow> bytes \<Rightarrow> error + Signature" where
  "ex_sign addr msg = Inr (1 # msg)"

definition ex_basic :: "Address \<Rightarrow> Output" where
  "ex_basic owner =
     BasicOut \<lparr>basic_Amount = 10, basic_Mana = 0, basic_Ident = owner,
               basic_Manalock = (\<lambda>accountID slot. False)\<rparr>"

definition ex_builder_same :: TransactionBuilder where
  "ex_builder_same =
     AddInput
       (AddInput NewTransactionBuilder
          \<lparr>UnlockTarget = Ed25519Address [1], InputID = [0],
           txin_Input = ex_basic (Ed25519Address [1])\<rparr>)
       \<lparr>UnlockTarget = Ed25519Address [1], InputID = [1],
        txin_Input = ex_basic (Ed25519Address [1])\<rparr>"

definition ex_builder_chain :: TransactionBuilder where
  "ex_builder_chain =
     AddInput
       (AddInput NewTransactionBuilder
          \<lparr>UnlockTarget = Ed25519Address [1], InputID = [0],
           txin_Input = AccountOut ex_current\<rparr>)
       \<lparr>UnlockTarget = AccountAddress idA, InputID = [1],
        txin_Input = ex_basic (AccountAddress idA)\<rparr>"

text \<open>The account output at the largest state index, and its successor at state index 0.\<close>

definition ex_index_max :: AccountOutput where
  "ex_index_max = ex_current\<lparr>StateIndex := 0xFFFFFFFF\<rparr>"

definition ex_index_zero :: AccountOutput where
  "ex_index_zero = ex_current\<lparr>StateIndex := 0\<rparr>"

text \<open>
  \<open>ex_builder_chain3\<close> adds a second basic input owned by the address of the account;
  \<open>ex_builder_twice\<close> consumes two account outputs with the identifier \<open>idA\<close> before a
  basic input owned by the address of that account.
\<close>

definition ex_builder_chain3 :: TransactionBuilder where
  "ex_builder_chain3 =
     AddInput ex_builder_chain
       \<lparr>UnlockTarget = AccountAddress idA, InputID = [2],
        txin_Input = ex_basic (AccountAddress idA)\<rparr>"

definition ex_builder_twice :: TransactionBuilder where
  "ex_builder_twice =
     AddInput
       (AddInput
          (AddInput NewTransactionBuilder
             \<lparr>UnlockTarget = Ed25519Address [1], InputID = [0],
              txin_Input = AccountOut ex_current\<rparr>)
          \<lparr>UnlockTarget = Ed25519Address [1], InputID = [1],
           txin_Input = AccountOut ex_current\<rparr>)
       \<lparr>UnlockTarget = AccountAddress idA, InputID = [2],
        txin_Input = ex_basic (AccountAddress idA)\<rparr>"

section \<open>Properties of the work-score arithmetic\<close>

lemma SafeAdd_exact: "SafeAdd x y = Inr r \<Longrightarrow> unat r = unat x + unat y"
  by (auto simp: SafeAdd_def unat_word_ariths split: if_splits)

lemma SafeMul_exact: "SafeMul x y = Inr r \<Longrightarrow> unat r = unat x * unat y"
  by (auto simp: SafeMul_def unat_word_ariths split: if_splits)

text \<open>\<open>WorkScore.Add\<close> returns the exact sum or an overflow error.\<close>

lemma WorkScore_Add_exact:
  "WorkScore_Add w ws = Inr r \<Longrightarrow> unat r = unat w + sum_list (map unat ws)"
proof (induction ws arbitrary: w)
  case Nil
  then show ?case by simp
next
  case (Cons a ws)
  then show ?case by (auto split: sum.splits dest!: SafeAdd_exact)
qed

lemma WorkScore_Add_overflow:
  "2 ^ 32 \<le> unat w + sum_list (map unat ws) \<Longrightarrow> WorkScore_Add w ws = Inl ErrIntegerOverflow"
proof (induction ws arbitrary: w)
  case Nil
  have "unat w < 2 ^ LENGTH(32)" by (rule unsigned_less)
  with Nil show ?case by simp
next
  case (Cons a ws)
  show ?case
  proof (cases "SafeAdd w a")
    case (Inl e)
    then show ?thesis by (auto simp: SafeAdd_def split: if_splits)
  next
    case (Inr r)
    then have "unat r = unat w + unat a" by (rule SafeAdd_exact)
    with Cons Inr show ?thesis by (simp add: add.assoc)
  qed
qed

text \<open>
  \<open>WorkScore.Multiply\<close> returns the exact product or an overflow error when its argument
  is a value of the type, \<open>0 \<le> n < 2 ^ 32\<close>.
\<close>

lemma WorkScore_Multiply_exact:
  assumes "0 \<le> n" and "n < 2 ^ 32" and "WorkScore_Multiply w n = Inr r"
  shows "int (unat r) = int (unat w) * n"
proof -
  have "uint (word_of_int n :: 32 word) = n"
    using assms(1,2) by (simp add: uint_word_of_int take_bit_int_eq_self)
  then have "unat (word_of_int n :: 32 word) = nat n"
    by (simp add: unat_eq_nat_uint)
  with SafeMul_exact[of w "word_of_int n" r] assms show ?thesis
    by (simp add: WorkScore_Multiply_def)
qed

text \<open>
  Outside that range the conversion \<open>WorkScore(in)\<close> drops the high bits before the
  checked multiplication sees them.
\<close>

lemma WorkScore_Multiply_truncates: "WorkScore_Multiply 1 (2 ^ 32 + 5) = Inr 5"
  by (simp add: WorkScore_Multiply_def SafeMul_def)

text \<open>
  Claim C9.  Every addition or multiplication of work scores that exceeds the range of
  the type is reported as an error; in particular the accumulation inside \<open>MaxBlockWork\<close>
  surfaces an overflow as a failure.  The products of \<open>MaxBlockWork\<close> are checked, but
  its running sum is the unchecked \<open>+=\<close>: with \<open>Block = 2 ^ 32 - 1\<close>, \<open>MissingParent = 1\<close>
  and \<open>MinStrongParentsThreshold = 1\<close> (all other factors 0) no product overflows, the sum
  is \<open>2 ^ 32\<close>, and the function returns the wrapped value 0 with no error, whatever the
  size limits are.
\<close>

theorem MaxBlockWork_sum_wraps: "MaxBlockWork L ex_wrapWS = Inr 0"
  by (simp add: MaxBlockWork_def ex_wrapWS_def mbw_step_def WorkScore_Multiply_def
      SafeMul_def Let_def)

section \<open>Evaluation of the concrete transactions\<close>

lemma idA_neq_idB: "idA \<noteq> idB" "idB \<noteq> idA"
  by (simp_all add: idA_def idB_def)

lemmas ex_account_defs =
  ex_current_def ex_issuer_def ex_input_def ex_params_def ex_provider_def

lemmas account_eval_defs =
  accountStateChangeValid_def accountStateSTVF_def accountBlockIssuerSTVF_def
  accountGovernanceSTVF_def accountDestructionValid_def bi_manaCheck_def bi_manaIn_def
  bi_manaOut_def TotalManaOut_def Features_Equal_def MustSet_def Features_Set_def
  FeatureUnchanged_def FeatureSet_BlockIssuer_def Negative_def Let_def

section \<open>Properties of the feature set\<close>

lemma Features_Equal_iff: "Features_Equal f other \<longleftrightarrow> f = other"
proof -
  have "length f = length other \<Longrightarrow> list_all (\<lambda>(a, b). a = b) (zip f other) \<longleftrightarrow> f = other"
    by (induction f other rule: list_induct2) auto
  then show ?thesis by (auto simp: Features_Equal_def)
qed

text \<open>A set built by \<open>Features.Set\<close> stores every feature under its own type.\<close>

lemma Set_loop_key:
  "Set_loop f acc = Inr s \<Longrightarrow> (\<forall>t x. acc t = Some x \<longrightarrow> Type x = t) \<Longrightarrow> s t = Some x \<Longrightarrow>
   Type x = t"
proof (induction f arbitrary: acc)
  case Nil
  then show ?case by simp
next
  case (Cons a f)
  from Cons.prems(1) have free: "acc (Type a) = None"
    and rest: "Set_loop f (acc(Type a \<mapsto> a)) = Inr s"
    by (auto split: if_splits)
  have "\<forall>t x. (acc(Type a \<mapsto> a)) t = Some x \<longrightarrow> Type x = t"
    using Cons.prems(2) by auto
  from Cons.IH[OF rest this Cons.prems(3)] show ?case .
qed

text \<open>
  On a feature list without a repeated type, \<open>MustSet\<close> does not panic and finds each
  feature of the list under its type.
\<close>

lemma Set_loop_distinct:
  "distinct (map Type f) \<Longrightarrow> Type ` set f \<inter> dom acc = {} \<Longrightarrow>
   \<exists>s. Set_loop f acc = Inr s \<and>
       (\<forall>x \<in> set f. s (Type x) = Some x) \<and>
       (\<forall>t. t \<notin> Type ` set f \<longrightarrow> s t = acc t)"
proof (induction f arbitrary: acc)
  case Nil
  then show ?case by simp
next
  case (Cons a f)
  have free: "acc (Type a) = None" using Cons.prems(2) by auto
  have d: "distinct (map Type f)" and na: "Type a \<notin> Type ` set f"
    using Cons.prems(1) by auto
  have disj: "Type ` set f \<inter> dom (acc(Type a \<mapsto> a)) = {}"
    using Cons.prems(2) na by auto
  from Cons.IH[OF d disj] obtain s where
    s: "Set_loop f (acc(Type a \<mapsto> a)) = Inr s"
    and mem: "\<forall>x \<in> set f. s (Type x) = Some x"
    and out: "\<forall>t. t \<notin> Type ` set f \<longrightarrow> s t = (acc(Type a \<mapsto> a)) t"
    by blast
  have "s (Type a) = Some a" using out na by simp
  moreover have "\<forall>t. t \<notin> Type ` set (a # f) \<longrightarrow> s t = acc t" using out by auto
  ultimately show ?case using s mem free by auto
qed

lemma MustSet_distinct:
  assumes "distinct (map Type f)"
  obtains s where "MustSet f = Some s"
    and "\<And>x. x \<in> set f \<Longrightarrow> s (Type x) = Some x"
    and "\<And>t. t \<notin> Type ` set f \<Longrightarrow> s t = None"
proof -
  from Set_loop_distinct[OF assms, of Map.empty] obtain s where
    "Set_loop f Map.empty = Inr s" "\<forall>x \<in> set f. s (Type x) = Some x"
    "\<forall>t. t \<notin> Type ` set f \<longrightarrow> s t = None"
    by auto
  then show ?thesis by (intro that[of s]) (auto simp: MustSet_def Features_Set_def)
qed

text \<open>
  On a feature list without a repeated type, membership in the list decides
  \<open>FeatureSet().BlockIssuer()\<close>: a block-issuer feature of the list is what it returns,
  and it returns nil when the list holds none.
\<close>

lemma BlockIssuer_present:
  assumes "distinct (map Type f)" and "BlockIssuerFeature ks e \<in> set f"
  shows "\<exists>s. MustSet f = Some s \<and> FeatureSet_BlockIssuer s = Some (BlockIssuerFeature ks e)"
proof -
  from MustSet_distinct[OF assms(1)] obtain s where
    s: "MustSet f = Some s" and mem: "\<And>x. x \<in> set f \<Longrightarrow> s (Type x) = Some x"
    by blast
  from mem[OF assms(2)] have "s FeatureBlockIssuer = Some (BlockIssuerFeature ks e)" by simp
  with s show ?thesis by (simp add: FeatureSet_BlockIssuer_def)
qed

lemma BlockIssuer_absent:
  assumes "distinct (map Type f)" and "FeatureBlockIssuer \<notin> Type ` set f"
  shows "\<exists>s. MustSet f = Some s \<and> FeatureSet_BlockIssuer s = None"
proof -
  from MustSet_distinct[OF assms(1)] obtain s where
    s: "MustSet f = Some s" and out: "\<And>t. t \<notin> Type ` set f \<Longrightarrow> s t = None"
    by blast
  from out[OF assms(2)] s show ?thesis by (simp add: FeatureSet_BlockIssuer_def)
qed

lemma FeatureSet_BlockIssuer_is:
  "FeatureSet_BlockIssuer s = Some x \<Longrightarrow> \<exists>ks e. x = BlockIssuerFeature ks e"
  by (auto simp: FeatureSet_BlockIssuer_def split: option.splits Feature.splits)

section \<open>Properties of the account state change\<close>

lemma accountGovernanceSTVF_Success:
  "accountGovernanceSTVF current next = Success \<longleftrightarrow>
     Amount current = Amount next \<and> NativeTokens current = NativeTokens next \<and>
     StateIndex current = StateIndex next \<and> StateMetadata current = StateMetadata next \<and>
     FoundryCounter current = FoundryCounter next"
  by (simp add: accountGovernanceSTVF_def)

lemma accountGovernanceSTVF_cases:
  "accountGovernanceSTVF current next = Success \<or>
   accountGovernanceSTVF current next = Failure ErrInvalidAccountGovernanceTransition"
  by (simp add: accountGovernanceSTVF_def)

lemma accountStateSTVF_Success:
  assumes "cot_Output input = AccountOut current"
    and "accountStateSTVF fid input next vmParams = Success"
  shows "StateController current = StateController next"
    and "GovernorAddress current = GovernorAddress next"
    and "FoundryCounter current \<le> FoundryCounter next"
    and "StateIndex current + 1 = StateIndex next"
    and "accountBlockIssuerSTVF input next vmParams = Success"
  using assms
  by (auto simp: accountStateSTVF_def Let_def split: if_splits option.splits)

lemma accountStateSTVF_jump:
  assumes "cot_Output input = AccountOut current"
    and "StateIndex current + 1 \<noteq> StateIndex next"
  shows "accountStateSTVF fid input next vmParams = Failure ErrInvalidAccountStateTransition"
  using assms by (simp add: accountStateSTVF_def)

text \<open>
  The successor of a 32-bit state index: one more, or 0 after 4294967295.
\<close>

lemma word_succ_cases:
  "y = x + 1 \<Longrightarrow> unat y = unat x + 1 \<or> (x = 0xFFFFFFFF \<and> y = 0)" for x y :: "32 word"
proof (cases "x + 1 = 0")
  case True
  assume y: "y = x + 1"
  from True have "x = - 1" by (simp add: eq_neg_iff_add_eq_0)
  then have "x = 0xFFFFFFFF" by simp
  with y True show ?thesis by simp
next
  case False
  assume y: "y = x + 1"
  from False have "1 + x \<noteq> 0" by (simp add: add.commute)
  from unatSuc[OF this] y show ?thesis by (simp add: add.commute)
qed

lemma word_plus_two:
  "unat y = unat x + 2 \<Longrightarrow> y = x + 2" for x y :: "32 word"
proof -
  assume "unat y = unat x + 2"
  then have "(word_of_nat (unat y) :: 32 word) = word_of_nat (unat x + 2)" by simp
  then show ?thesis by simp
qed

text \<open>
  Claim C2 as stated, with the output state index equal to the input state index plus
  exactly 1, fails where the 32-bit state index wraps around: the input state index is
  4294967295, the output state index is 0, nothing else changes, and the transition is
  accepted, because \<open>current.StateIndex+1\<close> is computed in \<open>uint32\<close>.
\<close>

theorem account_state_index_wrap_counterexample:
  "StateIndex ex_index_max = 4294967295 \<and> StateIndex ex_index_zero = 0 \<and>
   unat (StateIndex ex_index_zero) \<noteq> unat (StateIndex ex_index_max) + 1 \<and>
   accountStateChangeValid ex_fid (ex_input ex_index_max)
     (ex_params ex_index_max [AccountOut ex_index_zero] [] Map.empty) ex_index_zero = Success"
  by (simp add: ex_index_max_def ex_index_zero_def ex_account_defs account_eval_defs)

text \<open>
  Claim C2, as amended.  For every account state-change transition whose state index
  differs between input and output, validation succeeds only if the output state index
  is the input state index plus 1 in the 32-bit arithmetic of the field (that is, plus
  exactly 1, or 0 after 4294967295), the state-controller and governor addresses are
  unchanged and the foundry counter does not decrease; a transition whose state index
  jumps by 2, in 32-bit arithmetic or as a number, is rejected with the invalid account
  state transition error.
\<close>

theorem account_state_transition_requirements:
  assumes "cot_Output input = AccountOut current"
    and "StateIndex current \<noteq> StateIndex next"
  shows "(accountStateChangeValid fid input vmParams next = Success \<longrightarrow>
            StateIndex next = StateIndex current + 1 \<and>
            (unat (StateIndex next) = unat (StateIndex current) + 1 \<or>
             (StateIndex current = 0xFFFFFFFF \<and> StateIndex next = 0)) \<and>
            StateController next = StateController current \<and>
            GovernorAddress next = GovernorAddress current \<and>
            FoundryCounter current \<le> FoundryCounter next) \<and>
         (StateIndex next = StateIndex current + 2 \<longrightarrow>
            accountStateChangeValid fid input vmParams next =
              Failure ErrInvalidAccountStateTransition) \<and>
         (unat (StateIndex next) = unat (StateIndex current) + 2 \<longrightarrow>
            accountStateChangeValid fid input vmParams next =
              Failure ErrInvalidAccountStateTransition)"
proof -
  have ok: "StateIndex next = StateIndex current + 1 \<and>
            (unat (StateIndex next) = unat (StateIndex current) + 1 \<or>
             (StateIndex current = 0xFFFFFFFF \<and> StateIndex next = 0)) \<and>
            StateController next = StateController current \<and>
            GovernorAddress next = GovernorAddress current \<and>
            FoundryCounter current \<le> FoundryCounter next"
    if success: "accountStateChangeValid fid input vmParams next = Success"
  proof -
    from success assms have st: "accountStateSTVF fid input next vmParams = Success"
      by (simp add: accountStateChangeValid_def split: if_splits)
    note facts = accountStateSTVF_Success[OF assms(1) st]
    from facts(4) have succ: "StateIndex next = StateIndex current + 1" by simp
    from word_succ_cases[OF succ] succ facts(1,2,3) show ?thesis by simp
  qed
  have jump: "accountStateChangeValid fid input vmParams next =
                Failure ErrInvalidAccountStateTransition"
    if j: "StateIndex next = StateIndex current + 2"
  proof -
    from j have "StateIndex current + 1 \<noteq> StateIndex next" by simp
    from accountStateSTVF_jump[OF assms(1) this] assms show ?thesis
      by (simp add: accountStateChangeValid_def)
  qed
  have jump_nat: "accountStateChangeValid fid input vmParams next =
                Failure ErrInvalidAccountStateTransition"
    if "unat (StateIndex next) = unat (StateIndex current) + 2"
    using jump[OF word_plus_two[OF that]] .
  from ok jump jump_nat show ?thesis by blast
qed

theorem account_state_transition_requirements_witness:
  "accountStateChangeValid ex_fid (ex_input ex_current)
     (ex_params ex_current [AccountOut ex_next1] [] Map.empty) ex_next1 = Success \<and>
   StateIndex ex_next1 = StateIndex ex_current + 1 \<and>
   unat (StateIndex ex_next1) = unat (StateIndex ex_current) + 1 \<and>
   StateController ex_next1 = StateController ex_current \<and>
   GovernorAddress ex_next1 = GovernorAddress ex_current \<and>
   FoundryCounter ex_current \<le> FoundryCounter ex_next1 \<and>
   accountStateChangeValid ex_fid (ex_input ex_current)
     (ex_params ex_current [AccountOut ex_next2] [] Map.empty) ex_next2 =
     Failure ErrInvalidAccountStateTransition"
proof -
  have c: "cot_Output (ex_input ex_current) = AccountOut ex_current"
    by (simp add: ex_input_def)
  have n1: "StateIndex ex_current \<noteq> StateIndex ex_next1"
    by (simp add: ex_current_def ex_next1_def)
  have n2: "StateIndex ex_current \<noteq> StateIndex ex_next2"
    by (simp add: ex_current_def ex_next2_def)
  have ok: "accountStateChangeValid ex_fid (ex_input ex_current)
              (ex_params ex_current [AccountOut ex_next1] [] Map.empty) ex_next1 = Success"
    by (simp add: accountStateChangeValid_def accountStateSTVF_def accountBlockIssuerSTVF_def
        ex_input_def ex_current_def ex_next1_def Features_Equal_def MustSet_def Features_Set_def
        FeatureUnchanged_def FeatureSet_BlockIssuer_def)
  have j: "StateIndex ex_next2 = StateIndex ex_current + 2"
    by (simp add: ex_current_def ex_next2_def)
  have u: "unat (StateIndex ex_next1) = unat (StateIndex ex_current) + 1"
    by (simp add: ex_current_def ex_next1_def)
  from account_state_transition_requirements[OF c n1, of ex_fid
         "ex_params ex_current [AccountOut ex_next1] [] Map.empty"]
       account_state_transition_requirements[OF c n2, of ex_fid
         "ex_params ex_current [AccountOut ex_next2] [] Map.empty"]
       ok j u
  show ?thesis by simp
qed

text \<open>
  Claim C3.  For every account state-change transition whose state index is unchanged
  (a governance transition), validation succeeds exactly when the immutable features,
  the amount, the native tokens, the state metadata and the foundry counter are unchanged;
  so it succeeds when only the state-controller address, the governor address and the
  features differ, and it fails whenever the amount, native tokens, state index, state
  metadata or foundry counter differ.  Changing the state controller alone is accepted,
  changing the amount is rejected with the invalid governance transition error.
\<close>

theorem account_governance_transition:
  assumes "cot_Output input = AccountOut current"
  shows "(StateIndex current = StateIndex next \<longrightarrow>
            (accountStateChangeValid fid input vmParams next = Success \<longleftrightarrow>
               ImmutableFeatures current = ImmutableFeatures next \<and>
               Amount current = Amount next \<and> NativeTokens current = NativeTokens next \<and>
               StateMetadata current = StateMetadata next \<and>
               FoundryCounter current = FoundryCounter next)) \<and>
         accountStateChangeValid fid input vmParams
           (current\<lparr>StateController := sc, GovernorAddress := gov, Features := feats\<rparr>) = Success \<and>
         accountStateChangeValid fid input vmParams (current\<lparr>StateController := sc\<rparr>) = Success \<and>
         (amt \<noteq> Amount current \<longrightarrow>
            accountStateChangeValid fid input vmParams (current\<lparr>Amount := amt\<rparr>) =
              Failure ErrInvalidAccountGovernanceTransition) \<and>
         (accountGovernanceSTVF current next = Success \<longleftrightarrow>
            Amount current = Amount next \<and> NativeTokens current = NativeTokens next \<and>
            StateIndex current = StateIndex next \<and> StateMetadata current = StateMetadata next \<and>
            FoundryCounter current = FoundryCounter next)"
  using assms
  by (auto simp: accountStateChangeValid_def Features_Equal_iff accountGovernanceSTVF_def)

theorem account_governance_transition_witness:
  "accountStateChangeValid ex_fid (ex_input ex_current)
     (ex_params ex_current [] [] Map.empty) (ex_current\<lparr>StateController := Ed25519Address [9]\<rparr>)
     = Success \<and>
   accountStateChangeValid ex_fid (ex_input ex_current)
     (ex_params ex_current [] [] Map.empty) (ex_current\<lparr>Amount := 99\<rparr>)
     = Failure ErrInvalidAccountGovernanceTransition"
proof -
  have c: "cot_Output (ex_input ex_current) = AccountOut ex_current"
    by (simp add: ex_input_def)
  have a: "(99 :: BaseToken) \<noteq> Amount ex_current" by (simp add: ex_current_def)
  from account_governance_transition[OF c, where fid = ex_fid
         and vmParams = "ex_params ex_current [] [] Map.empty" and sc = "Ed25519Address [9]"
         and amt = 99] a
  show ?thesis by simp
qed

section \<open>Properties of the account destruction\<close>

text \<open>
  Claim C7.  For every destroy transition of an account output carrying a block-issuer
  feature, destruction is valid only if the feature's expiry slot is before the
  transaction's creation slot and the account's block-issuer credit is known and
  non-negative; when the expiry slot has not passed, destruction is rejected with the
  invalid block-issuer transition error whatever the credits are.
\<close>

theorem account_destruction_block_issuer:
  assumes "cot_Output input = AccountOut a"
    and "distinct (map Type (Features a))"
    and "BlockIssuerFeature ks e \<in> set (Features a)"
  shows "(accountDestructionValid input vmParams = Success \<longrightarrow>
            e < CreationTime (Tx (WorkingSet vmParams)) \<and>
            (\<exists>bic. BIC (WorkingSet vmParams) (AccountID a) = Some bic \<and> \<not> Negative bic)) \<and>
         (CreationTime (Tx (WorkingSet vmParams)) \<le> e \<longrightarrow>
            (\<forall>credits. accountDestructionValid input
               (vmParams\<lparr>WorkingSet := (WorkingSet vmParams)\<lparr>BIC := credits\<rparr>\<rparr>) =
               Failure ErrInvalidBlockIssuerTransition))"
proof -
  from BlockIssuer_present[OF assms(2,3)] obtain s where
    "MustSet (Features a) = Some s" "FeatureSet_BlockIssuer s = Some (BlockIssuerFeature ks e)"
    by blast
  with assms(1) show ?thesis
    by (auto simp: accountDestructionValid_def split: option.splits if_splits)
qed

theorem account_destruction_block_issuer_witness:
  "accountDestructionValid (ex_input ex_expired) (ex_params ex_expired [] [] [idA \<mapsto> 0])
     = Success \<and>
   (10 :: SlotIndex) < CreationTime (Tx (WorkingSet (ex_params ex_expired [] [] [idA \<mapsto> 0]))) \<and>
   (\<exists>bic. BIC (WorkingSet (ex_params ex_expired [] [] [idA \<mapsto> 0])) (AccountID ex_expired)
            = Some bic \<and> \<not> Negative bic) \<and>
   accountDestructionValid (ex_input ex_issuer)
     ((ex_params ex_issuer [] [] Map.empty)
        \<lparr>WorkingSet := (WorkingSet (ex_params ex_issuer [] [] Map.empty))\<lparr>BIC := [idA \<mapsto> 5]\<rparr>\<rparr>)
     = Failure ErrInvalidBlockIssuerTransition"
proof -
  have c1: "cot_Output (ex_input ex_expired) = AccountOut ex_expired"
    and d1: "distinct (map Type (Features ex_expired))"
    and m1: "BlockIssuerFeature [[1]] 10 \<in> set (Features ex_expired)"
    and c2: "cot_Output (ex_input ex_issuer) = AccountOut ex_issuer"
    and d2: "distinct (map Type (Features ex_issuer))"
    and m2: "BlockIssuerFeature [[1]] 100 \<in> set (Features ex_issuer)"
    and live: "CreationTime (Tx (WorkingSet (ex_params ex_issuer [] [] Map.empty))) \<le> 100"
    by (simp_all add: ex_account_defs ex_expired_def)
  have ok: "accountDestructionValid (ex_input ex_expired)
              (ex_params ex_expired [] [] [idA \<mapsto> 0]) = Success"
    by (simp add: ex_account_defs ex_expired_def account_eval_defs)
  from account_destruction_block_issuer[OF c1 d1 m1, of "ex_params ex_expired [] [] [idA \<mapsto> 0]"]
       account_destruction_block_issuer[OF c2 d2 m2, of "ex_params ex_issuer [] [] Map.empty"]
       ok live
  show ?thesis by blast
qed

section \<open>Properties of the block-issuer transition\<close>

text \<open>The branches of \<open>accountBlockIssuerSTVF\<close> on feature lists without a repeated type.\<close>

lemma bi_untouched:
  assumes "cot_Output input = AccountOut current"
    and "MustSet (Features current) = Some cs" and "MustSet (Features next) = Some ns"
    and "FeatureSet_BlockIssuer cs = None" and "FeatureSet_BlockIssuer ns = None"
  shows "accountBlockIssuerSTVF input next vmParams = Success"
  using assms by (simp add: accountBlockIssuerSTVF_def Let_def)

lemma bi_credit_missing:
  assumes "cot_Output input = AccountOut current"
    and "MustSet (Features current) = Some cs" and "MustSet (Features next) = Some ns"
    and "FeatureSet_BlockIssuer cs \<noteq> None \<or> FeatureSet_BlockIssuer ns \<noteq> None"
    and "BIC (WorkingSet vmParams) (AccountID current) = None"
  shows "accountBlockIssuerSTVF input next vmParams = Failure ErrInvalidBlockIssuerTransition"
  using assms by (auto simp: accountBlockIssuerSTVF_def Let_def)

lemma bi_credit_negative:
  assumes "cot_Output input = AccountOut current"
    and "MustSet (Features current) = Some cs" and "MustSet (Features next) = Some ns"
    and "FeatureSet_BlockIssuer cs \<noteq> None \<or> FeatureSet_BlockIssuer ns \<noteq> None"
    and "BIC (WorkingSet vmParams) (AccountID current) = Some bic" and "Negative bic"
  shows "accountBlockIssuerSTVF input next vmParams = Failure ErrInvalidBlockIssuerTransition"
  using assms by (auto simp: accountBlockIssuerSTVF_def Let_def)

lemma bi_added_panics:
  assumes "cot_Output input = AccountOut current"
    and "MustSet (Features current) = Some cs" and "MustSet (Features next) = Some ns"
    and "FeatureSet_BlockIssuer cs = None" and "FeatureSet_BlockIssuer ns = Some nxt"
    and "BIC (WorkingSet vmParams) (AccountID current) = Some bic" and "\<not> Negative bic"
  shows "accountBlockIssuerSTVF input next vmParams = Panic"
  using assms by (simp add: accountBlockIssuerSTVF_def Let_def)

lemma bi_removed_unexpired:
  assumes "cot_Output input = AccountOut current"
    and "MustSet (Features current) = Some cs" and "MustSet (Features next) = Some ns"
    and "FeatureSet_BlockIssuer cs = Some cur" and "FeatureSet_BlockIssuer ns = None"
    and "CreationTime (Tx (WorkingSet vmParams)) \<le> ExpirySlot cur"
  shows "accountBlockIssuerSTVF input next vmParams = Failure ErrInvalidBlockIssuerTransition"
  using assms by (simp add: accountBlockIssuerSTVF_def Let_def split: option.splits)

lemma bi_expiry_too_soon:
  assumes "cot_Output input = AccountOut current"
    and "MustSet (Features current) = Some cs" and "MustSet (Features next) = Some ns"
    and "FeatureSet_BlockIssuer cs = Some cur" and "FeatureSet_BlockIssuer ns = Some nxt"
    and "ExpirySlot nxt \<noteq> 0" and "ExpirySlot nxt \<noteq> ExpirySlot cur"
    and "ExpirySlot nxt < CreationTime (Tx (WorkingSet vmParams)) + LivenessThreshold vmParams"
  shows "accountBlockIssuerSTVF input next vmParams = Failure ErrInvalidBlockIssuerTransition"
  using assms by (simp add: accountBlockIssuerSTVF_def Let_def split: option.splits)

lemma bi_failure_kind:
  "accountBlockIssuerSTVF input next vmParams = Failure err \<Longrightarrow>
   err = ErrInvalidBlockIssuerTransition"
  by (auto simp: accountBlockIssuerSTVF_def bi_manaCheck_def Let_def
      split: Output.splits option.splits if_splits)

lemma bi_reaches_mana_check:
  assumes "cot_Output input = AccountOut current"
    and "accountBlockIssuerSTVF input next vmParams = Success"
    and "MustSet (Features current) = Some cs" and "FeatureSet_BlockIssuer cs = Some cur"
  shows "bi_manaCheck input current next vmParams = Success"
  using assms
  by (auto simp: accountBlockIssuerSTVF_def Let_def split: option.splits if_splits)

lemma state_change_runs_block_issuer_check:
  assumes "cot_Output input = AccountOut current"
    and "StateIndex current \<noteq> StateIndex next"
    and "accountStateChangeValid fid input vmParams next = Success"
  shows "accountBlockIssuerSTVF input next vmParams = Success"
proof -
  from assms have "accountStateSTVF fid input next vmParams = Success"
    by (simp add: accountStateChangeValid_def split: if_splits)
  from accountStateSTVF_Success(5)[OF assms(1) this] show ?thesis .
qed

text \<open>
  The state-transition branch.  When the state index differs between input and output,
  \<open>accountStateChangeValid\<close> runs \<open>accountBlockIssuerSTVF\<close>: on a transition that touches
  a block-issuer feature it succeeds only if the account's block-issuer credit is present
  in the working set and non-negative, a block-issuer feature of the input whose expiry
  has not passed at the transaction's creation slot is still present on the output, and
  an expiry that is changed to a non-zero value is at least \<open>LivenessThreshold\<close> slots
  after the creation slot (the sum taken in the 32-bit arithmetic of the slot index).
  Each of these violations makes \<open>accountBlockIssuerSTVF\<close> return the invalid block-issuer
  transition error (lemmas \<open>bi_credit_missing\<close>, \<open>bi_credit_negative\<close>,
  \<open>bi_removed_unexpired\<close>, \<open>bi_expiry_too_soon\<close> above), and it returns no other error.
\<close>

lemma block_issuer_state_transition:
  assumes acc: "cot_Output input = AccountOut current"
    and wfc: "distinct (map Type (Features current))"
    and wfn: "distinct (map Type (Features next))"
    and touch: "FeatureBlockIssuer \<in> Type ` set (Features current) \<union> Type ` set (Features next)"
    and idx: "StateIndex current \<noteq> StateIndex next"
  shows "(accountStateChangeValid fid input vmParams next = Success \<longrightarrow>
            (\<exists>bic. BIC (WorkingSet vmParams) (AccountID current) = Some bic \<and> \<not> Negative bic) \<and>
            (\<forall>ks e. BlockIssuerFeature ks e \<in> set (Features current) \<and>
                     CreationTime (Tx (WorkingSet vmParams)) \<le> e \<longrightarrow>
                     FeatureBlockIssuer \<in> Type ` set (Features next)) \<and>
            (\<forall>ks e ks' e'. BlockIssuerFeature ks e \<in> set (Features current) \<and>
                     BlockIssuerFeature ks' e' \<in> set (Features next) \<and> e' \<noteq> 0 \<and> e' \<noteq> e \<longrightarrow>
                     CreationTime (Tx (WorkingSet vmParams)) + LivenessThreshold vmParams \<le> e')) \<and>
         (\<forall>err. accountBlockIssuerSTVF input next vmParams = Failure err \<longrightarrow>
                err = ErrInvalidBlockIssuerTransition)"
proof -
  from MustSet_distinct[OF wfc] obtain cs where
    cs: "MustSet (Features current) = Some cs"
    and csm: "\<And>x. x \<in> set (Features current) \<Longrightarrow> cs (Type x) = Some x"
    and cso: "\<And>t. t \<notin> Type ` set (Features current) \<Longrightarrow> cs t = None"
    by blast
  from MustSet_distinct[OF wfn] obtain ns where
    ns: "MustSet (Features next) = Some ns"
    and nsm: "\<And>x. x \<in> set (Features next) \<Longrightarrow> ns (Type x) = Some x"
    and nso: "\<And>t. t \<notin> Type ` set (Features next) \<Longrightarrow> ns t = None"
    by blast
  have touched: "FeatureSet_BlockIssuer cs \<noteq> None \<or> FeatureSet_BlockIssuer ns \<noteq> None"
  proof -
    from touch obtain x where
      x: "x \<in> set (Features current) \<or> x \<in> set (Features next)" "Type x = FeatureBlockIssuer"
      by force
    then obtain ks e where "x = BlockIssuerFeature ks e" by (cases x) auto
    with x csm[of x] nsm[of x] show ?thesis
      by (auto simp: FeatureSet_BlockIssuer_def)
  qed
  {
    assume ok: "accountStateChangeValid fid input vmParams next = Success"
    have bi: "accountBlockIssuerSTVF input next vmParams = Success"
      by (rule state_change_runs_block_issuer_check[OF acc idx ok])
    have credit: "\<exists>bic. BIC (WorkingSet vmParams) (AccountID current) = Some bic \<and> \<not> Negative bic"
    proof (cases "BIC (WorkingSet vmParams) (AccountID current)")
      case None
      from bi_credit_missing[OF acc cs ns touched None] bi show ?thesis by simp
    next
      case (Some bic)
      with bi_credit_negative[OF acc cs ns touched Some] bi show ?thesis by auto
    qed
    have removal: "FeatureBlockIssuer \<in> Type ` set (Features next)"
      if "BlockIssuerFeature ks e \<in> set (Features current)"
        and "CreationTime (Tx (WorkingSet vmParams)) \<le> e" for ks e
    proof (rule ccontr)
      assume "FeatureBlockIssuer \<notin> Type ` set (Features next)"
      from nso[OF this] have n: "FeatureSet_BlockIssuer ns = None"
        by (simp add: FeatureSet_BlockIssuer_def)
      from csm[OF that(1)] have c: "FeatureSet_BlockIssuer cs = Some (BlockIssuerFeature ks e)"
        by (simp add: FeatureSet_BlockIssuer_def)
      from bi_removed_unexpired[OF acc cs ns c n] that(2) bi show False by simp
    qed
    have expiry: "CreationTime (Tx (WorkingSet vmParams)) + LivenessThreshold vmParams \<le> e'"
      if "BlockIssuerFeature ks e \<in> set (Features current)"
        and "BlockIssuerFeature ks' e' \<in> set (Features next)" and "e' \<noteq> 0" and "e' \<noteq> e"
      for ks e ks' e'
    proof (rule ccontr)
      assume "\<not> CreationTime (Tx (WorkingSet vmParams)) + LivenessThreshold vmParams \<le> e'"
      then have lt: "e' < CreationTime (Tx (WorkingSet vmParams)) + LivenessThreshold vmParams"
        by simp
      from csm[OF that(1)] have c: "FeatureSet_BlockIssuer cs = Some (BlockIssuerFeature ks e)"
        by (simp add: FeatureSet_BlockIssuer_def)
      from nsm[OF that(2)] have n: "FeatureSet_BlockIssuer ns = Some (BlockIssuerFeature ks' e')"
        by (simp add: FeatureSet_BlockIssuer_def)
      from bi_expiry_too_soon[OF acc cs ns c n] that(3,4) lt bi show False by simp
    qed
    note credit removal expiry
  }
  then show ?thesis using bi_failure_kind by blast
qed

lemma block_issuer_state_transition_example:
  "accountStateChangeValid ex_fid (ex_input ex_issuer)
     (ex_params ex_issuer [AccountOut ex_issuer_next] [] [idA \<mapsto> 0]) ex_issuer_next = Success \<and>
   (\<exists>bic. BIC (WorkingSet (ex_params ex_issuer [AccountOut ex_issuer_next] [] [idA \<mapsto> 0]))
            (AccountID ex_issuer) = Some bic \<and> \<not> Negative bic) \<and>
   FeatureBlockIssuer \<in> Type ` set (Features ex_issuer_next)"
proof -
  let ?p = "ex_params ex_issuer [AccountOut ex_issuer_next] [] [idA \<mapsto> 0]"
  have acc: "cot_Output (ex_input ex_issuer) = AccountOut ex_issuer"
    by (simp add: ex_input_def)
  have wfc: "distinct (map Type (Features ex_issuer))"
    and wfn: "distinct (map Type (Features ex_issuer_next))"
    and touch: "FeatureBlockIssuer \<in> Type ` set (Features ex_issuer) \<union>
                  Type ` set (Features ex_issuer_next)"
    and idx: "StateIndex ex_issuer \<noteq> StateIndex ex_issuer_next"
    and mem: "BlockIssuerFeature [[1]] 100 \<in> set (Features ex_issuer)"
    and live: "CreationTime (Tx (WorkingSet ?p)) \<le> 100"
    by (simp_all add: ex_account_defs ex_issuer_next_def)
  have ok: "accountStateChangeValid ex_fid (ex_input ex_issuer) ?p ex_issuer_next = Success"
    by (simp add: ex_account_defs ex_issuer_next_def account_eval_defs)
  from block_issuer_state_transition[OF acc wfc wfn touch idx, of ex_fid ?p] ok mem live
  show ?thesis by blast
qed

text \<open>
  Claim C5.  For every account state-change transition touching a block-issuer feature,
  validation fails unless the account's block-issuer credit is present in the working set
  and non-negative, and a block-issuer feature whose expiry has not passed at the
  transaction's creation slot cannot be removed; a violation is the invalid block-issuer
  transition error.  The code accepts such a transition on the governance branch:
  \<open>ex_issuer\<close> carries a block-issuer feature that expires at slot 100, the transaction
  is created at slot 20 and the working set holds no block-issuer credit for the account;
  the output \<open>ex_issuer_removed\<close> keeps the state index and drops the feature.
  \<open>accountStateChangeValid\<close> returns \<open>accountGovernanceSTVF\<close>, which never runs
  \<open>accountBlockIssuerSTVF\<close>, and the transition is valid.
\<close>

theorem block_issuer_governance_counterexample:
  "BlockIssuerFeature [[1]] 100 \<in> set (Features ex_issuer) \<and>
   CreationTime (Tx (WorkingSet (ex_params ex_issuer [AccountOut ex_issuer_removed] [] Map.empty)))
     \<le> 100 \<and>
   BIC (WorkingSet (ex_params ex_issuer [AccountOut ex_issuer_removed] [] Map.empty))
     (AccountID ex_issuer) = None \<and>
   Features ex_issuer_removed = [] \<and>
   accountStateChangeValid ex_fid (ex_input ex_issuer)
     (ex_params ex_issuer [AccountOut ex_issuer_removed] [] Map.empty) ex_issuer_removed = Success"
  by (simp add: ex_account_defs ex_issuer_removed_def account_eval_defs)

text \<open>
  The comparison that closes \<open>accountBlockIssuerSTVF\<close>: the transition is rejected exactly
  when the mana of the other inputs exceeds the mana that goes to the other outputs.
\<close>

lemma bi_manaCheck_rejects_iff:
  "bi_manaCheck input current next vmParams = Failure ErrInvalidBlockIssuerTransition \<longleftrightarrow>
   bi_manaOut current next vmParams < bi_manaIn input current vmParams"
  by (simp add: bi_manaCheck_def)

text \<open>
  Mana that flows into the account is what the comparison rejects: \<open>ex_issuer\<close> (100 mana)
  and a basic output (50 mana) are consumed, the account output keeps all 150.
\<close>

lemma block_issuer_mana_received_rejected:
  "accountBlockIssuerSTVF (ex_input ex_issuer) ex_issuer_topped ex_params_received =
     Failure ErrInvalidBlockIssuerTransition"
  by (simp add: ex_account_defs ex_basic50_def ex_issuer_topped_def ex_params_received_def
      account_eval_defs)

text \<open>
  Claim C6.  For every account state-change transition with an active block-issuer
  feature, the mana attributed to the account on the input side must reappear as the
  account's output stored mana, as an allotment to the same account or as stored mana
  locked back to the account; a transaction with a shortfall is rejected.  The code
  accepts such a shortfall: \<open>ex_issuer\<close> holds 100 mana and an active block-issuer feature,
  its successor \<open>ex_issuer_drained\<close> holds none, nothing is allotted to the account, no
  basic or NFT output exists, and the 100 mana are allotted to another account.  The
  comparison \<open>manaIn > manaOut\<close> reads \<open>0 > 100\<close> and the transition is accepted.
\<close>

theorem block_issuer_mana_moved_off_accepted:
  "Mana ex_issuer = 100 \<and> Mana ex_issuer_drained = 0 \<and>
   Allotments_Get [ex_allot_B] (AccountID ex_issuer) = 0 \<and>
   accountStateChangeValid ex_fid (ex_input ex_issuer)
     (ex_params ex_issuer [AccountOut ex_issuer_drained] [ex_allot_B] [idA \<mapsto> 0])
     ex_issuer_drained = Success"
  by (simp add: ex_account_defs ex_issuer_drained_def ex_allot_B_def account_eval_defs
      idA_neq_idB)

text \<open>
  Claim C10.  For every account state-change transition in which a block-issuer feature
  exists on at least one side and the account's block-issuer credit is present and
  non-negative, \<open>accountBlockIssuerSTVF\<close> returns without panicking, also when only the
  output side has the feature.  The code panics there: \<open>ex_current\<close> has no block-issuer
  feature, its successor \<open>ex_issuer_added\<close> has one, the credit of the account is 0, and
  the read of \<open>currentBIFeat.ExpirySlot\<close> dereferences nil.
\<close>

theorem block_issuer_added_panics:
  "FeatureBlockIssuer \<notin> Type ` set (Features ex_current) \<and>
   BlockIssuerFeature [[1]] 100 \<in> set (Features ex_issuer_added) \<and>
   BIC (WorkingSet (ex_params ex_current [AccountOut ex_issuer_added] [] [idA \<mapsto> 0]))
     (AccountID ex_current) = Some 0 \<and>
   accountBlockIssuerSTVF (ex_input ex_current)
     ex_issuer_added (ex_params ex_current [AccountOut ex_issuer_added] [] [idA \<mapsto> 0]) = Panic"
  by (simp add: ex_account_defs ex_issuer_added_def account_eval_defs)

section \<open>Properties of the foundry genesis\<close>

text \<open>
  When the outputs before the validated foundry hold no foundry of the same owner with the
  same identifier, the loop reaches the validated foundry itself and has compared it with
  every earlier new foundry of that owner.
\<close>

lemma serialNumberOrder_reaches_self:
  assumes "\<forall>other. FoundryOut other \<in> set pre \<and> foundry_Ident other = foundry_Ident current \<longrightarrow>
             (\<exists>oid. fid other = Inr oid \<and> oid \<noteq> thisFoundryID)"
    and "fid current = Inr thisFoundryID"
    and "inChains (FoundryChain thisFoundryID) = None"
  shows "serialNumberOrder fid inChains current thisFoundryID (pre @ FoundryOut current # post)
           = Success \<longleftrightarrow>
         (\<forall>other oid. FoundryOut other \<in> set pre \<and> foundry_Ident other = foundry_Ident current \<and>
                      fid other = Inr oid \<and> inChains (FoundryChain oid) = None \<longrightarrow>
                      SerialNumber other < SerialNumber current)"
  using assms(1)
proof (induction pre)
  case Nil
  then show ?case using assms(2,3) by simp
next
  case (Cons out pre)
  have IH: "serialNumberOrder fid inChains current thisFoundryID (pre @ FoundryOut current # post)
           = Success \<longleftrightarrow>
         (\<forall>other oid. FoundryOut other \<in> set pre \<and> foundry_Ident other = foundry_Ident current \<and>
                      fid other = Inr oid \<and> inChains (FoundryChain oid) = None \<longrightarrow>
                      SerialNumber other < SerialNumber current)"
    using Cons.IH Cons.prems by auto
  show ?case
  proof (cases out)
    case (FoundryOut other)
    show ?thesis
    proof (cases "foundry_Ident other = foundry_Ident current")
      case False
      with FoundryOut IH show ?thesis by auto
    next
      case True
      with Cons.prems FoundryOut obtain oid where
        oid: "fid other = Inr oid" "oid \<noteq> thisFoundryID" by auto
      show ?thesis
      proof (cases "inChains (FoundryChain oid) = None")
        case False
        with FoundryOut True oid IH show ?thesis by auto
      next
        case new: True
        show ?thesis
        proof (cases "SerialNumber other < SerialNumber current")
          case True
          with FoundryOut \<open>foundry_Ident other = foundry_Ident current\<close> oid new IH
          show ?thesis by (auto simp: not_le)
        next
          case False
          with FoundryOut \<open>foundry_Ident other = foundry_Ident current\<close> oid new
          show ?thesis by (auto simp: not_less)
        qed
      qed
    qed
  qed (use IH in auto)
qed

text \<open>In 32-bit arithmetic \<open>x + 2\<close> never lies in the interval \<open>(x, x + 1]\<close>.\<close>

lemma serial_plus_two_outside: "\<not> (x < x + 2 \<and> x + 2 \<le> x + 1)" for x :: "32 word"
  by unat_arith

text \<open>
  Claim C4, as amended.  For every genesis foundry output anchored to an account whose
  foundry counter moves from the old counter (input side) to the new counter (output
  side), in a transaction whose earlier foundries of the same account have identifiers
  different from its own, validation accepts the foundry's serial number exactly when it
  lies in the half-open interval \<open>(old counter, new counter]\<close> and is strictly greater
  than the serial number of every new foundry anchored to the same account that appears
  earlier in the transaction's output list; a serial number equal to the old counter
  plus 2 when the counter increased by 1 is rejected.
\<close>

theorem foundry_serial_number_accepted_iff:
  assumes outs: "Outputs (Tx (WorkingSet vmParams)) = pre @ FoundryOut current # post"
    and ids: "\<forall>other. FoundryOut other \<in> set pre \<and> foundry_Ident other = foundry_Ident current \<longrightarrow>
                (\<exists>oid. fid other = Inr oid \<and> oid \<noteq> thisFoundryID)"
    and self: "fid current = Inr thisFoundryID"
    and new: "InChains (WorkingSet vmParams) (FoundryChain thisFoundryID) = None"
  shows "(foundrySerialNumberValid fid current vmParams inAccount outAccount thisFoundryID
            = Success \<longleftrightarrow>
          FoundryCounter inAccount < SerialNumber current \<and>
          SerialNumber current \<le> FoundryCounter outAccount \<and>
          (\<forall>other oid. FoundryOut other \<in> set pre \<and>
                       foundry_Ident other = foundry_Ident current \<and> fid other = Inr oid \<and>
                       InChains (WorkingSet vmParams) (FoundryChain oid) = None \<longrightarrow>
                       SerialNumber other < SerialNumber current)) \<and>
         (FoundryCounter outAccount = FoundryCounter inAccount + 1 \<and>
          SerialNumber current = FoundryCounter inAccount + 2 \<longrightarrow>
          foundrySerialNumberValid fid current vmParams inAccount outAccount thisFoundryID
            = Failure ErrInvalidFoundryStateTransition)"
proof -
  note loop = serialNumberOrder_reaches_self[where fid = fid and pre = pre
      and current = current and thisFoundryID = thisFoundryID
      and inChains = "InChains (WorkingSet vmParams)" and post = post, OF ids self new]
  have "foundrySerialNumberValid fid current vmParams inAccount outAccount thisFoundryID
          = Success \<longleftrightarrow>
        FoundryCounter inAccount < SerialNumber current \<and>
        SerialNumber current \<le> FoundryCounter outAccount \<and>
        serialNumberOrder fid (InChains (WorkingSet vmParams)) current thisFoundryID
          (pre @ FoundryOut current # post) = Success"
    by (auto simp: foundrySerialNumberValid_def Let_def outs not_le not_less)
  moreover have "foundrySerialNumberValid fid current vmParams inAccount outAccount thisFoundryID
            = Failure ErrInvalidFoundryStateTransition"
    if "FoundryCounter outAccount = FoundryCounter inAccount + 1"
      and "SerialNumber current = FoundryCounter inAccount + 2"
    using that serial_plus_two_outside[of "FoundryCounter inAccount"]
    by (auto simp: foundrySerialNumberValid_def Let_def not_le not_less)
  ultimately show ?thesis using loop by blast
qed

lemmas ex_foundry_defs =
  ex_foundry_def ex_counter6_def ex_foundry_params_def ex_current_def ex_input_def ex_fid_def

text \<open>
  Claim C4 as stated, with the interval \<open>[old counter, new counter)\<close>, fails: the counter
  goes from 5 to 6; the serial number 5 lies in \<open>[5, 6)\<close> and is rejected, the serial
  number 6 lies outside \<open>[5, 6)\<close> and is accepted.
\<close>

theorem foundry_serial_interval_counterexample:
  "FoundryCounter ex_current = 5 \<and> FoundryCounter ex_counter6 = 6 \<and>
   SerialNumber (ex_foundry 5) \<in> {5..<6} \<and> SerialNumber (ex_foundry 6) \<notin> {5..<6} \<and>
   foundrySerialNumberValid ex_fid (ex_foundry 5)
     (ex_foundry_params [AccountOut ex_counter6, FoundryOut (ex_foundry 5)])
     ex_current ex_counter6 (idA @ [5, 0]) = Failure ErrInvalidFoundryStateTransition \<and>
   foundrySerialNumberValid ex_fid (ex_foundry 6)
     (ex_foundry_params [AccountOut ex_counter6, FoundryOut (ex_foundry 6)])
     ex_current ex_counter6 (idA @ [6, 0]) = Success"
  by (simp add: ex_foundry_defs foundrySerialNumberValid_def)

theorem foundry_serial_number_accepted_iff_witness:
  "foundrySerialNumberValid ex_fid (ex_foundry 6)
     (ex_foundry_params [FoundryOut (ex_foundry 5), FoundryOut (ex_foundry 6)])
     ex_current ex_counter6 (idA @ [6, 0]) = Success \<and>
   FoundryCounter ex_current < SerialNumber (ex_foundry 6) \<and>
   SerialNumber (ex_foundry 6) \<le> FoundryCounter ex_counter6 \<and>
   SerialNumber (ex_foundry 5) < SerialNumber (ex_foundry 6) \<and>
   foundrySerialNumberValid ex_fid (ex_foundry 7)
     (ex_foundry_params [FoundryOut (ex_foundry 5), FoundryOut (ex_foundry 7)])
     ex_current ex_counter6 (idA @ [7, 0]) = Failure ErrInvalidFoundryStateTransition"
proof -
  let ?p6 = "ex_foundry_params [FoundryOut (ex_foundry 5), FoundryOut (ex_foundry 6)]"
  let ?p7 = "ex_foundry_params [FoundryOut (ex_foundry 5), FoundryOut (ex_foundry 7)]"
  have o6: "Outputs (Tx (WorkingSet ?p6)) = [FoundryOut (ex_foundry 5)] @ FoundryOut (ex_foundry 6) # []"
    and o7: "Outputs (Tx (WorkingSet ?p7)) = [FoundryOut (ex_foundry 5)] @ FoundryOut (ex_foundry 7) # []"
    by (simp_all add: ex_foundry_params_def)
  have i6: "\<forall>other. FoundryOut other \<in> set [FoundryOut (ex_foundry 5)] \<and>
              foundry_Ident other = foundry_Ident (ex_foundry 6) \<longrightarrow>
              (\<exists>oid. ex_fid other = Inr oid \<and> oid \<noteq> idA @ [6, 0])"
    and i7: "\<forall>other. FoundryOut other \<in> set [FoundryOut (ex_foundry 5)] \<and>
              foundry_Ident other = foundry_Ident (ex_foundry 7) \<longrightarrow>
              (\<exists>oid. ex_fid other = Inr oid \<and> oid \<noteq> idA @ [7, 0])"
    by (simp_all add: ex_foundry_def ex_fid_def)
  have s6: "ex_fid (ex_foundry 6) = Inr (idA @ [6, 0])"
    and s7: "ex_fid (ex_foundry 7) = Inr (idA @ [7, 0])"
    by (simp_all add: ex_foundry_def ex_fid_def)
  have n6: "InChains (WorkingSet ?p6) (FoundryChain (idA @ [6, 0])) = None"
    and n7: "InChains (WorkingSet ?p7) (FoundryChain (idA @ [7, 0])) = None"
    by (simp_all add: ex_foundry_params_def)
  have five: "ex_fid (ex_foundry 5) = Inr (idA @ [5, 0])"
    "InChains (WorkingSet ?p6) (FoundryChain (idA @ [5, 0])) = None"
    by (simp_all add: ex_foundry_def ex_fid_def ex_foundry_params_def)
  have ok: "foundrySerialNumberValid ex_fid (ex_foundry 6) ?p6 ex_current ex_counter6
              (idA @ [6, 0]) = Success"
    by (simp add: ex_foundry_defs foundrySerialNumberValid_def)
  have c: "FoundryCounter ex_counter6 = FoundryCounter ex_current + 1"
    "SerialNumber (ex_foundry 7) = FoundryCounter ex_current + 2"
    by (simp_all add: ex_foundry_defs)
  from foundry_serial_number_accepted_iff[OF o6 i6 s6 n6, of ex_current ex_counter6]
       foundry_serial_number_accepted_iff[OF o7 i7 s7 n7, of ex_current ex_counter6]
       ok c five
  show ?thesis by (simp add: ex_foundry_def)
qed

section \<open>Properties of the validation pipeline\<close>

lemma RunVMFuncs_first_violation:
  "n < length fs \<Longrightarrow> passed run p (take n fs) = Some q \<Longrightarrow> run (fs ! n) q = Inl err \<Longrightarrow>
   RunVMFuncs run p fs = (take (Suc n) fs, Some err)"
proof (induction fs arbitrary: n p)
  case Nil
  then show ?case by simp
next
  case (Cons f fs)
  show ?case
  proof (cases n)
    case 0
    with Cons.prems show ?thesis by simp
  next
    case (Suc m)
    with Cons.prems obtain p' where p': "run f p = Inr p'" "passed run p' (take m fs) = Some q"
      by (auto split: sum.splits)
    from Cons.IH[of m p'] Cons.prems Suc p' show ?thesis by simp
  qed
qed

lemma RunVMFuncs_all_passed:
  "passed run p fs = Some q \<Longrightarrow> RunVMFuncs run p fs = (fs, None)"
  by (induction fs arbitrary: p) (auto split: sum.splits)

lemma passed_or_first_violation:
  "(\<exists>q. passed run p fs = Some q) \<or>
   (\<exists>n q err. n < length fs \<and> passed run p (take n fs) = Some q \<and> run (fs ! n) q = Inl err)"
proof (induction fs arbitrary: p)
  case Nil
  then show ?case by simp
next
  case (Cons f fs)
  show ?case
  proof (cases "run f p")
    case (Inl err)
    then have "0 < length (f # fs) \<and> passed run p (take 0 (f # fs)) = Some p \<and>
               run ((f # fs) ! 0) p = Inl err" by simp
    then show ?thesis by blast
  next
    case (Inr p')
    from Cons.IH[of p'] show ?thesis
    proof
      assume "\<exists>q. passed run p' fs = Some q"
      with Inr show ?thesis by simp
    next
      assume "\<exists>n q err. n < length fs \<and> passed run p' (take n fs) = Some q \<and>
                run (fs ! n) q = Inl err"
      then obtain n q err where "n < length fs" "passed run p' (take n fs) = Some q"
        "run (fs ! n) q = Inl err" by blast
      with Inr have "Suc n < length (f # fs) \<and> passed run p (take (Suc n) (f # fs)) = Some q \<and>
                     run ((f # fs) ! Suc n) q = Inl err" by simp
      then show ?thesis by blast
    qed
  qed
qed

text \<open>
  Claim C1.  The default validation pipeline runs exactly seven checks in the fixed order
  timelocks, input-unlock authorization, sender-feature unlock correctness, balanced
  base-token deposit, balanced native tokens, chain-output transitions, balanced mana, and
  is fail-fast: once the working set is built and no override list is given, the first
  check in that order that is violated aborts the validation with that check's violation,
  and the checks run are exactly those up to it; when no check is violated all seven run
  and the validation succeeds.  One of the two always applies.
\<close>

theorem default_pipeline_fail_fast:
  assumes "newWorkingSet t inputs = Inr workingSet"
  shows "NewVirtualMachine =
           [ExecFuncTimelocks, ExecFuncInputUnlocks, ExecFuncSenderUnlocked,
            ExecFuncBalancedDeposit, ExecFuncBalancedNativeTokens, ExecFuncChainTransitions,
            ExecFuncBalancedMana] \<and>
         (\<forall>n q err. n < 7 \<and>
              passed run (vmParams\<lparr>WorkingSet := workingSet\<rparr>) (take n NewVirtualMachine) = Some q \<and>
              run (NewVirtualMachine ! n) q = Inl err \<longrightarrow>
              Execute newWorkingSet run t vmParams inputs [] =
                (take (Suc n) NewVirtualMachine, Some err)) \<and>
         (\<forall>q. passed run (vmParams\<lparr>WorkingSet := workingSet\<rparr>) NewVirtualMachine = Some q \<longrightarrow>
              Execute newWorkingSet run t vmParams inputs [] = (NewVirtualMachine, None)) \<and>
         ((\<exists>q. passed run (vmParams\<lparr>WorkingSet := workingSet\<rparr>) NewVirtualMachine = Some q) \<or>
          (\<exists>n q err. n < 7 \<and>
              passed run (vmParams\<lparr>WorkingSet := workingSet\<rparr>) (take n NewVirtualMachine) = Some q \<and>
              run (NewVirtualMachine ! n) q = Inl err))"
proof -
  let ?p = "vmParams\<lparr>WorkingSet := workingSet\<rparr>"
  have len: "length NewVirtualMachine = 7" by (simp add: NewVirtualMachine_def)
  have ex: "Execute newWorkingSet run t vmParams inputs [] =
              RunVMFuncs run ?p NewVirtualMachine"
    using assms by (simp add: Execute_def)
  have order: "NewVirtualMachine =
           [ExecFuncTimelocks, ExecFuncInputUnlocks, ExecFuncSenderUnlocked,
            ExecFuncBalancedDeposit, ExecFuncBalancedNativeTokens, ExecFuncChainTransitions,
            ExecFuncBalancedMana]"
    by (simp add: NewVirtualMachine_def)
  have first: "\<forall>n q err. n < 7 \<and> passed run ?p (take n NewVirtualMachine) = Some q \<and>
              run (NewVirtualMachine ! n) q = Inl err \<longrightarrow>
              Execute newWorkingSet run t vmParams inputs [] =
                (take (Suc n) NewVirtualMachine, Some err)"
  proof (intro allI impI)
    fix n q err
    assume h: "n < 7 \<and> passed run ?p (take n NewVirtualMachine) = Some q \<and>
               run (NewVirtualMachine ! n) q = Inl err"
    then have "n < length NewVirtualMachine" using len by simp
    from RunVMFuncs_first_violation[OF this] h ex
    show "Execute newWorkingSet run t vmParams inputs [] =
            (take (Suc n) NewVirtualMachine, Some err)" by simp
  qed
  have all: "\<forall>q. passed run ?p NewVirtualMachine = Some q \<longrightarrow>
              Execute newWorkingSet run t vmParams inputs [] = (NewVirtualMachine, None)"
    using RunVMFuncs_all_passed ex by simp
  have total: "(\<exists>q. passed run ?p NewVirtualMachine = Some q) \<or>
          (\<exists>n q err. n < 7 \<and> passed run ?p (take n NewVirtualMachine) = Some q \<and>
              run (NewVirtualMachine ! n) q = Inl err)"
    using passed_or_first_violation[of run ?p NewVirtualMachine] unfolding len .
  from order first all total show ?thesis by (intro conjI)
qed

theorem default_pipeline_fail_fast_witness:
  "Execute ex_newWorkingSet ex_run () (ex_params ex_current [] [] Map.empty) () [] =
     ([ExecFuncTimelocks, ExecFuncInputUnlocks, ExecFuncSenderUnlocked, ExecFuncBalancedDeposit],
      Some (ErrExternal ''deposit''))"
proof -
  let ?p = "ex_params ex_current [] [] Map.empty"
  have ws: "ex_newWorkingSet () () = Inr (WorkingSet ?p)" by (simp add: ex_newWorkingSet_def)
  have same: "?p\<lparr>WorkingSet := WorkingSet ?p\<rparr> = ?p" by simp
  have pass: "passed ex_run ?p (take 3 NewVirtualMachine) = Some ?p"
    by (simp add: NewVirtualMachine_def ex_run_def)
  have viol: "ex_run (NewVirtualMachine ! 3) ?p = Inl (ErrExternal ''deposit'')"
    by (simp add: NewVirtualMachine_def ex_run_def)
  from default_pipeline_fail_fast[where newWorkingSet = ex_newWorkingSet and t = "()"
         and inputs = "()" and run = ex_run and vmParams = ?p, OF ws] pass viol same
  have "3 < (7::nat) \<and> passed ex_run ?p (take 3 NewVirtualMachine) = Some ?p \<and>
        ex_run (NewVirtualMachine ! 3) ?p = Inl (ErrExternal ''deposit'') \<longrightarrow>
        Execute ex_newWorkingSet ex_run () ?p () [] =
          (take (Suc 3) NewVirtualMachine, Some (ErrExternal ''deposit''))"
    by (simp only: same) blast
  with pass viol show ?thesis by (simp add: NewVirtualMachine_def)
qed

section \<open>Properties of the transaction builder\<close>

lemma firstIndex_snoc:
  "firstIndex P (xs @ [x]) =
     (case firstIndex P xs of Some p \<Rightarrow> Some p | None \<Rightarrow> if P x then Some (length xs) else None)"
  by (induction xs) (auto split: option.splits)

lemma lastIndex_snoc:
  "lastIndex P (xs @ [x]) = (if P x then Some (length xs) else lastIndex P xs)"
  by (induction xs) (auto split: option.splits)

lemma firstIndex_Some_iff:
  "firstIndex P xs = Some p \<longleftrightarrow> p < length xs \<and> P (xs ! p) \<and> (\<forall>j<p. \<not> P (xs ! j))"
proof (induction xs arbitrary: p)
  case Nil
  then show ?case by simp
next
  case (Cons x xs)
  show ?case
  proof (cases "P x")
    case True
    then show ?thesis by (cases p) auto
  next
    case False
    show ?thesis
    proof (cases p)
      case 0
      with False show ?thesis by auto
    next
      case (Suc q)
      have "(\<forall>j<Suc q. \<not> P ((x # xs) ! j)) \<longleftrightarrow> (\<forall>j<q. \<not> P (xs ! j))"
        using False by (auto simp: less_Suc_eq_0_disj)
      with False Suc Cons.IH[of q] show ?thesis by auto
    qed
  qed
qed

lemma firstIndex_None_iff: "firstIndex P xs = None \<longleftrightarrow> (\<forall>x \<in> set xs. \<not> P x)"
  by (induction xs) auto

lemma lastIndex_None_iff: "lastIndex P xs = None \<longleftrightarrow> (\<forall>x \<in> set xs. \<not> P x)"
  by (induction xs) (auto split: option.splits)

lemma lastIndex_Some_iff:
  "lastIndex P xs = Some p \<longleftrightarrow>
     p < length xs \<and> P (xs ! p) \<and> (\<forall>j. p < j \<and> j < length xs \<longrightarrow> \<not> P (xs ! j))"
proof (induction xs rule: rev_induct)
  case Nil
  then show ?case by simp
next
  case (snoc x xs)
  show ?case
  proof (cases "P x")
    case True
    have "p < length (xs @ [x]) \<and> P ((xs @ [x]) ! p) \<and>
          (\<forall>j. p < j \<and> j < length (xs @ [x]) \<longrightarrow> \<not> P ((xs @ [x]) ! j)) \<longleftrightarrow> p = length xs"
    proof
      assume h: "p < length (xs @ [x]) \<and> P ((xs @ [x]) ! p) \<and>
          (\<forall>j. p < j \<and> j < length (xs @ [x]) \<longrightarrow> \<not> P ((xs @ [x]) ! j))"
      show "p = length xs"
      proof (rule ccontr)
        assume "p \<noteq> length xs"
        with h have lt: "p < length xs" by simp
        from h have "p < length xs \<and> length xs < length (xs @ [x]) \<longrightarrow>
                     \<not> P ((xs @ [x]) ! length xs)" by blast
        with lt True show False by simp
      qed
    next
      assume "p = length xs"
      with True show "p < length (xs @ [x]) \<and> P ((xs @ [x]) ! p) \<and>
          (\<forall>j. p < j \<and> j < length (xs @ [x]) \<longrightarrow> \<not> P ((xs @ [x]) ! j))" by auto
    qed
    with True show ?thesis by (auto simp: lastIndex_snoc)
  next
    case False
    have "p < length (xs @ [x]) \<and> P ((xs @ [x]) ! p) \<and>
          (\<forall>j. p < j \<and> j < length (xs @ [x]) \<longrightarrow> \<not> P ((xs @ [x]) ! j)) \<longleftrightarrow>
          p < length xs \<and> P (xs ! p) \<and> (\<forall>j. p < j \<and> j < length xs \<longrightarrow> \<not> P (xs ! j))"
      using False by (auto simp: nth_append less_Suc_eq)
    with False snoc show ?thesis by (simp add: lastIndex_snoc)
  qed
qed

lemma addReferentialUnlock_eq:
  "addReferentialUnlock addr unlocks pos = unlocks @ [referentialUnlock addr pos]"
  by (cases addr) simp_all

lemma referentialUnlock_plain:
  "\<not> isChainAddress addr \<Longrightarrow> referentialUnlock addr pos = ReferenceUnlock (of_nat pos)"
  by (cases addr) simp_all

lemma unlockedChain_isChain: "unlockedChain input = Some c \<Longrightarrow> isChainAddress c"
proof -
  have "chainAddress out = Some c \<Longrightarrow> isChainAddress c" for out
    by (cases out) auto
  then show "unlockedChain input = Some c \<Longrightarrow> isChainAddress c"
    by (auto simp: unlockedChain_def split: option.splits)
qed

lemma addChainAsUnlocked_eq:
  "addChainAsUnlocked key input i pos =
     (case unlockedChain input of None \<Rightarrow> pos | Some c \<Rightarrow> pos(key c \<mapsto> i))"
  by (simp add: addChainAsUnlocked_def unlockedChain_def split: option.splits)

lemma unlockPosInvariant_step:
  assumes inv: "unlockPosInvariant key A owner m done pos"
    and inj: "inj_on key A"
    and own: "owner r = Some a" and aA: "a \<in> A"
    and cA: "\<And>c. unlockedChain (m r) = Some c \<Longrightarrow> c \<in> A"
    and fresh: "pos (key a) = None \<Longrightarrow> \<not> isChainAddress a"
    and pos': "pos' = (if pos (key a) = None
                      then (addChainAsUnlocked key (m r) (length done) pos)(key a \<mapsto> length done)
                      else addChainAsUnlocked key (m r) (length done) pos)"
  shows "unlockPosInvariant key A owner m (done @ [r]) pos'"
  unfolding unlockPosInvariant_def
proof
  fix b assume bA: "b \<in> A"
  have keq: "key x = key y \<longleftrightarrow> x = y" if "x \<in> A" "y \<in> A" for x y
    using inj that by (auto dest: inj_onD)
  from inv bA have ib: "pos (key b) =
        (if isChainAddress b
         then lastIndex (\<lambda>inputRef. unlockedChain (m inputRef) = Some b) done
         else firstIndex (\<lambda>inputRef. owner inputRef = Some b) done)"
    by (simp add: unlockPosInvariant_def)
  show "pos' (key b) =
        (if isChainAddress b
         then lastIndex (\<lambda>inputRef. unlockedChain (m inputRef) = Some b) (done @ [r])
         else firstIndex (\<lambda>inputRef. owner inputRef = Some b) (done @ [r]))"
  proof (cases "isChainAddress b")
    case chain: True
    have nota: "pos (key a) = None \<Longrightarrow> key a \<noteq> key b"
      using fresh chain keq[OF aA bA] by auto
    have "pos' (key b) = addChainAsUnlocked key (m r) (length done) pos (key b)"
      using pos' nota by auto
    also have "\<dots> = (if unlockedChain (m r) = Some b then Some (length done) else pos (key b))"
    proof (cases "unlockedChain (m r)")
      case None
      then show ?thesis by (simp add: addChainAsUnlocked_eq)
    next
      case (Some c)
      with cA have "c \<in> A" by simp
      from keq[OF this bA] Some show ?thesis by (auto simp: addChainAsUnlocked_eq)
    qed
    finally show ?thesis using chain ib by (simp add: lastIndex_snoc)
  next
    case plain: False
    have nomark: "addChainAsUnlocked key (m r) (length done) pos (key b) = pos (key b)"
    proof (cases "unlockedChain (m r)")
      case None
      then show ?thesis by (simp add: addChainAsUnlocked_eq)
    next
      case (Some c)
      with cA have "c \<in> A" by simp
      moreover from Some have "isChainAddress c" by (rule unlockedChain_isChain)
      ultimately have "key c \<noteq> key b" using keq[of c b] bA plain by auto
      with Some show ?thesis by (simp add: addChainAsUnlocked_eq)
    qed
    show ?thesis
    proof (cases "a = b")
      case True
      show ?thesis
      proof (cases "pos (key a)")
        case None
        with pos' True have "pos' (key b) = Some (length done)" by simp
        moreover from None ib True plain
        have "firstIndex (\<lambda>inputRef. owner inputRef = Some b) done = None" by simp
        ultimately show ?thesis using plain own True by (simp add: firstIndex_snoc)
      next
        case (Some p)
        with pos' have "pos' (key b) = pos (key b)" using nomark by simp
        with Some ib True plain show ?thesis by (simp add: firstIndex_snoc)
      qed
    next
      case False
      with keq[OF aA bA] have "key a \<noteq> key b" by simp
      with pos' nomark have "pos' (key b) = pos (key b)" by auto
      with ib plain own False show ?thesis
        by (auto simp: firstIndex_snoc split: option.splits)
    qed
  qed
qed

text \<open>
  The unlock loop computes \<open>builtUnlock\<close>: started after the input references \<open>done\<close>
  in a state that satisfies the invariant, it keeps the unlocks produced so far and appends
  for each remaining input the unlock of \<open>builtUnlock\<close>.
\<close>

lemma assignUnlocks_refines:
  assumes inj: "inj_on key A"
    and mem: "\<forall>r \<in> set (done @ rest). (\<forall>a. owner r = Some a \<longrightarrow> a \<in> A) \<and>
                (\<forall>c. unlockedChain (m r) = Some c \<longrightarrow> c \<in> A)"
    and run: "assignUnlocks key sign msg owner (length done) (map (\<lambda>r. (r, m r)) rest) pos us
                = Returned us'"
    and len: "length us = length done"
    and inv: "unlockPosInvariant key A owner m done pos"
  shows "length us' = length done + length rest \<and> take (length done) us' = us \<and>
         (\<forall>k<length rest. \<exists>a. owner (rest ! k) = Some a \<and>
            builtUnlock sign msg owner m (done @ take k rest) a = Some (us' ! (length done + k)))"
  using mem run len inv
proof (induction rest arbitrary: "done" pos us)
  case Nil
  then show ?case by simp
next
  case (Cons r rest)
  from Cons.prems(2) obtain a where own: "owner r = Some a"
    by (cases "owner r") auto
  from Cons.prems(1) own have aA: "a \<in> A" by simp
  have cA: "\<And>c. unlockedChain (m r) = Some c \<Longrightarrow> c \<in> A" using Cons.prems(1) by simp
  from Cons.prems(4) aA have ia: "pos (key a) =
        (if isChainAddress a
         then lastIndex (\<lambda>inputRef. unlockedChain (m inputRef) = Some a) done
         else firstIndex (\<lambda>inputRef. owner inputRef = Some a) done)"
    by (simp add: unlockPosInvariant_def)
  define pos' where "pos' = (if pos (key a) = None
                      then (addChainAsUnlocked key (m r) (length done) pos)(key a \<mapsto> length done)
                      else addChainAsUnlocked key (m r) (length done) pos)"
  have "\<exists>u. assignUnlocks key sign msg owner (Suc (length done)) (map (\<lambda>r. (r, m r)) rest) pos'
               (us @ [u]) = Returned us' \<and>
             builtUnlock sign msg owner m done a = Some u \<and>
             (pos (key a) = None \<longrightarrow> \<not> isChainAddress a)"
  proof (cases "pos (key a)")
    case None
    with Cons.prems(2) own have plain: "\<not> isChainAddress a"
      by (auto split: if_splits)
    with Cons.prems(2) own None obtain sg where sg: "sign a msg = Inr sg"
      by (cases "sign a msg") auto
    with Cons.prems(2) own None plain
    have "assignUnlocks key sign msg owner (Suc (length done)) (map (\<lambda>r. (r, m r)) rest) pos'
            (us @ [SignatureUnlock sg]) = Returned us'"
      by (simp add: pos'_def)
    moreover from None ia plain sg
    have "builtUnlock sign msg owner m done a = Some (SignatureUnlock sg)"
      by (simp add: builtUnlock_def)
    ultimately show ?thesis using plain by blast
  next
    case (Some p)
    with Cons.prems(2) own
    have "assignUnlocks key sign msg owner (Suc (length done)) (map (\<lambda>r. (r, m r)) rest) pos'
            (us @ [referentialUnlock a p]) = Returned us'"
      by (simp add: pos'_def addReferentialUnlock_eq)
    moreover from Some ia
    have "builtUnlock sign msg owner m done a = Some (referentialUnlock a p)"
      by (auto simp: builtUnlock_def referentialUnlock_plain)
    ultimately show ?thesis using Some by auto
  qed
  then obtain u where
    run': "assignUnlocks key sign msg owner (length (done @ [r])) (map (\<lambda>r. (r, m r)) rest) pos'
             (us @ [u]) = Returned us'"
    and spec0: "builtUnlock sign msg owner m done a = Some u"
    and fresh: "pos (key a) = None \<Longrightarrow> \<not> isChainAddress a"
    by auto
  have inv': "unlockPosInvariant key A owner m (done @ [r]) pos'"
    by (rule unlockPosInvariant_step[OF Cons.prems(4) inj own aA cA fresh pos'_def])
  have mem': "\<forall>r \<in> set ((done @ [r]) @ rest). (\<forall>a. owner r = Some a \<longrightarrow> a \<in> A) \<and>
                (\<forall>c. unlockedChain (m r) = Some c \<longrightarrow> c \<in> A)"
    using Cons.prems(1) by simp
  have len': "length (us @ [u]) = length (done @ [r])" using Cons.prems(3) by simp
  from Cons.IH[OF mem' run' len' inv']
  have L: "length us' = length (done @ [r]) + length rest"
    and T: "take (length (done @ [r])) us' = us @ [u]"
    and R: "\<forall>k<length rest. \<exists>a. owner (rest ! k) = Some a \<and>
            builtUnlock sign msg owner m ((done @ [r]) @ take k rest) a
              = Some (us' ! (length (done @ [r]) + k))"
    by blast+
  have T0: "take (length done) us' = us"
  proof -
    have "take (length done) us' = take (length done) (take (length (done @ [r])) us')"
      by (simp add: min_def)
    also have "\<dots> = us" using T Cons.prems(3) by simp
    finally show ?thesis .
  qed
  have U: "us' ! length done = u"
  proof -
    have "us' ! length done = take (length (done @ [r])) us' ! length done" by simp
    also have "\<dots> = u" using T Cons.prems(3) by (simp add: nth_append)
    finally show ?thesis .
  qed
  have "\<exists>b. owner ((r # rest) ! k) = Some b \<and>
            builtUnlock sign msg owner m (done @ take k (r # rest)) b
              = Some (us' ! (length done + k))" if "k < length (r # rest)" for k
  proof (cases k)
    case 0
    with own spec0 U show ?thesis by simp
  next
    case (Suc j)
    with that have "j < length rest" by simp
    with R Suc show ?thesis by simp
  qed
  with L T0 show ?case by simp
qed

lemma zip_OrderedSet: "zip ids (OrderedSet ids m) = map (\<lambda>r. (r, m r)) ids"
  by (induction ids) (simp_all add: OrderedSet_def)

text \<open>A chain address that no consumed chain output has unlocked makes \<open>Build\<close> fail.\<close>

lemma assignUnlocks_chain_not_unlocked:
  "owner inputRef = Some addr \<Longrightarrow> isChainAddress addr \<Longrightarrow> unlockPos (key addr) = None \<Longrightarrow>
   assignUnlocks key sign msg owner i ((inputRef, input) # rest) unlockPos unlocks
     = Failed ErrChainNotUnlocked"
  by simp

lemma Build_Returned:
  assumes "Build key commitment signingMessage b protoParams signer = Returned tx"
  obtains sign inputsCommitment txEssenceData where
    "signer = Some sign"
    "commitment (OrderedSet (essence_Inputs b) (b_inputs b)) = Inr inputsCommitment"
    "signingMessage (essence_Inputs b) inputsCommitment = Inr txEssenceData"
    "assignUnlocks key sign txEssenceData (inputOwner b) 0
       (map (\<lambda>r. (r, b_inputs b r)) (essence_Inputs b)) Map.empty [] = Returned (tx_Unlocks tx)"
  using assms
  by (auto simp: Build_def Let_def zip_OrderedSet
      split: option.splits sum.splits result.splits)

text \<open>
  Claim C8, as amended.  For every successful \<open>Build\<close> (the keys of the addresses involved
  being pairwise different), unlocks are assigned in essence-input order, one per input.
  An input whose unlocking address is not a chain address gets a fresh signature unlock
  when the address occurs for the first time among the unlocking addresses, and a
  \<open>ReferenceUnlock\<close> pointing at the position of that first occurrence afterwards.  An
  input whose unlocking address is a chain address never gets a signature unlock: it gets
  an \<open>AccountUnlock\<close> (account address) or \<open>NFTUnlock\<close> (NFT address) pointing at the last
  position before it at which a consumed chain output marked that address as unlocked,
  and such a position exists, since \<open>Build\<close> fails otherwise.  Positions are stored as
  \<open>uint16(pos)\<close>.  In particular, for two inputs owned by the same non-chain address,
  unlock 0 is a signature unlock and unlock 1 is a reference unlock pointing at index 0.
\<close>

theorem build_unlock_assignment:
  assumes inj: "inj_on key (builderAddresses b)"
    and build: "Build key commitment signingMessage b protoParams signer = Returned tx"
  shows "\<exists>sign inputsCommitment txEssenceData.
           signer = Some sign \<and>
           commitment (OrderedSet (essence_Inputs b) (b_inputs b)) = Inr inputsCommitment \<and>
           signingMessage (essence_Inputs b) inputsCommitment = Inr txEssenceData \<and>
           length (tx_Unlocks tx) = length (essence_Inputs b) \<and>
           (\<forall>i<length (essence_Inputs b). \<exists>addr.
              inputOwner b (essence_Inputs b ! i) = Some addr \<and>
              builtUnlock sign txEssenceData (inputOwner b) (b_inputs b)
                (take i (essence_Inputs b)) addr = Some (tx_Unlocks tx ! i)) \<and>
           (\<forall>i addr. i < length (essence_Inputs b) \<and>
              inputOwner b (essence_Inputs b ! i) = Some addr \<and> isChainAddress addr \<longrightarrow>
              (\<exists>p<i. unlockedChain (b_inputs b (essence_Inputs b ! p)) = Some addr)) \<and>
           (\<forall>r1 r2 addr. essence_Inputs b = [r1, r2] \<and> inputOwner b r1 = Some addr \<and>
              inputOwner b r2 = Some addr \<and> \<not> isChainAddress addr \<longrightarrow>
              (\<exists>signature. sign addr txEssenceData = Inr signature \<and>
                 tx_Unlocks tx = [SignatureUnlock signature, ReferenceUnlock 0]))"
proof -
  from Build_Returned[OF build] obtain sign inputsCommitment txEssenceData where
    s: "signer = Some sign"
    and c: "commitment (OrderedSet (essence_Inputs b) (b_inputs b)) = Inr inputsCommitment"
    and m: "signingMessage (essence_Inputs b) inputsCommitment = Inr txEssenceData"
    and run: "assignUnlocks key sign txEssenceData (inputOwner b) (length ([] :: OutputID list))
       (map (\<lambda>r. (r, b_inputs b r)) (essence_Inputs b)) Map.empty [] = Returned (tx_Unlocks tx)"
    by auto
  have mem: "\<forall>r \<in> set ([] @ essence_Inputs b).
               (\<forall>a. inputOwner b r = Some a \<longrightarrow> a \<in> builderAddresses b) \<and>
               (\<forall>c. unlockedChain (b_inputs b r) = Some c \<longrightarrow> c \<in> builderAddresses b)"
    by (auto simp: builderAddresses_def)
  have inv: "unlockPosInvariant key (builderAddresses b) (inputOwner b) (b_inputs b) []
               Map.empty"
    by (simp add: unlockPosInvariant_def)
  from assignUnlocks_refines[OF inj mem run _ inv]
  have len: "length (tx_Unlocks tx) = length (essence_Inputs b)"
    and each: "\<forall>i<length (essence_Inputs b). \<exists>addr.
              inputOwner b (essence_Inputs b ! i) = Some addr \<and>
              builtUnlock sign txEssenceData (inputOwner b) (b_inputs b)
                (take i (essence_Inputs b)) addr = Some (tx_Unlocks tx ! i)"
    by simp_all
  have two: "\<exists>signature. sign addr txEssenceData = Inr signature \<and>
                 tx_Unlocks tx = [SignatureUnlock signature, ReferenceUnlock 0]"
    if h: "essence_Inputs b = [r1, r2] \<and> inputOwner b r1 = Some addr \<and>
              inputOwner b r2 = Some addr \<and> \<not> isChainAddress addr" for r1 r2 addr
  proof -
    from each h have
      u0: "builtUnlock sign txEssenceData (inputOwner b) (b_inputs b) [] addr
             = Some (tx_Unlocks tx ! 0)"
      and u1: "builtUnlock sign txEssenceData (inputOwner b) (b_inputs b) [r1] addr
             = Some (tx_Unlocks tx ! Suc 0)"
      by (auto simp: less_Suc_eq numeral_2_eq_2)
    from u0 h obtain sg where sg: "sign addr txEssenceData = Inr sg"
      "tx_Unlocks tx ! 0 = SignatureUnlock sg"
      by (auto simp: builtUnlock_def split: sum.splits)
    from u1 h have r: "tx_Unlocks tx ! Suc 0 = ReferenceUnlock 0"
      by (simp add: builtUnlock_def)
    from len h have "length (tx_Unlocks tx) = Suc (Suc 0)" by simp
    then obtain x y where xy: "tx_Unlocks tx = [x, y]"
      by (auto simp: length_Suc_conv)
    with sg r show ?thesis by simp
  qed
  have chain: "\<exists>p<i. unlockedChain (b_inputs b (essence_Inputs b ! p)) = Some addr"
    if h: "i < length (essence_Inputs b) \<and>
           inputOwner b (essence_Inputs b ! i) = Some addr \<and> isChainAddress addr" for i addr
  proof -
    from each h obtain u where
      "builtUnlock sign txEssenceData (inputOwner b) (b_inputs b) (take i (essence_Inputs b)) addr
         = Some u" by force
    with h obtain p where
      "lastIndex (\<lambda>inputRef. unlockedChain (b_inputs b inputRef) = Some addr)
         (take i (essence_Inputs b)) = Some p"
      by (auto simp: builtUnlock_def)
    then have pl: "p < length (take i (essence_Inputs b))"
      and pp: "unlockedChain (b_inputs b (take i (essence_Inputs b) ! p)) = Some addr"
      unfolding lastIndex_Some_iff by blast+
    from pl have "p < i" by simp
    moreover from this pp
    have "unlockedChain (b_inputs b (essence_Inputs b ! p)) = Some addr" by simp
    ultimately show ?thesis by blast
  qed
  from chain have chain': "\<forall>i addr. i < length (essence_Inputs b) \<and>
              inputOwner b (essence_Inputs b ! i) = Some addr \<and> isChainAddress addr \<longrightarrow>
              (\<exists>p<i. unlockedChain (b_inputs b (essence_Inputs b ! p)) = Some addr)"
    by blast
  from two have two': "\<forall>r1 r2 addr. essence_Inputs b = [r1, r2] \<and>
              inputOwner b r1 = Some addr \<and> inputOwner b r2 = Some addr \<and>
              \<not> isChainAddress addr \<longrightarrow>
              (\<exists>signature. sign addr txEssenceData = Inr signature \<and>
                 tx_Unlocks tx = [SignatureUnlock signature, ReferenceUnlock 0])"
    by blast
  show ?thesis
    by (rule exI[of _ sign], rule exI[of _ inputsCommitment], rule exI[of _ txEssenceData])
       (intro conjI s c m len each chain' two')
qed

lemmas ex_builder_defs =
  NewTransactionBuilder_def AddInput_def ex_basic_def ex_sign_def

lemma ex_key_distinct: "ex_key (Ed25519Address [1]) \<noteq> ex_key (AccountAddress idA)"
  by (simp add: ex_key_def)

theorem build_unlock_assignment_witness:
  "Build ex_key (\<lambda>ins. Inr []) (\<lambda>ids c. Inr [42]) ex_builder_same (Some ()) (Some ex_sign)
     = Returned \<lparr>tx_Inputs = [[0], [1]], tx_InputsCommitment = [],
                 tx_Unlocks = [SignatureUnlock [1, 42], ReferenceUnlock 0]\<rparr> \<and>
   builtUnlock ex_sign [42] (inputOwner ex_builder_same) (b_inputs ex_builder_same) [[0]]
     (Ed25519Address [1]) = Some (ReferenceUnlock 0) \<and>
   Build ex_key (\<lambda>ins. Inr []) (\<lambda>ids c. Inr [42]) ex_builder_chain (Some ()) (Some ex_sign)
     = Returned \<lparr>tx_Inputs = [[0], [1]], tx_InputsCommitment = [],
                 tx_Unlocks = [SignatureUnlock [1, 42], AccountUnlock 0]\<rparr> \<and>
   builtUnlock ex_sign [42] (inputOwner ex_builder_chain) (b_inputs ex_builder_chain) [[0]]
     (AccountAddress idA) = Some (AccountUnlock 0)"
proof -
  let ?tx1 = "\<lparr>tx_Inputs = [[0], [1]], tx_InputsCommitment = [],
                 tx_Unlocks = [SignatureUnlock [1, 42], ReferenceUnlock 0]\<rparr>"
  let ?tx2 = "\<lparr>tx_Inputs = [[0], [1]], tx_InputsCommitment = [],
                 tx_Unlocks = [SignatureUnlock [1, 42], AccountUnlock 0]\<rparr>"
  have b1: "Build ex_key (\<lambda>ins. Inr []) (\<lambda>ids c. Inr [42]) ex_builder_same (Some ())
              (Some ex_sign) = Returned ?tx1"
    by (simp add: Build_def ex_builder_same_def ex_builder_defs OrderedSet_def
        addChainAsUnlocked_def)
  have b2: "Build ex_key (\<lambda>ins. Inr []) (\<lambda>ids c. Inr [42]) ex_builder_chain (Some ())
              (Some ex_sign) = Returned ?tx2"
    by (simp add: Build_def ex_builder_chain_def ex_builder_defs OrderedSet_def
        addChainAsUnlocked_def ex_key_distinct ex_current_def)
  have a1: "builderAddresses ex_builder_same = {Ed25519Address [1]}"
    by (auto simp: builderAddresses_def ex_builder_same_def ex_builder_defs unlockedChain_def)
  have a2: "builderAddresses ex_builder_chain = {Ed25519Address [1], AccountAddress idA}"
    by (auto simp: builderAddresses_def ex_builder_chain_def ex_builder_defs unlockedChain_def
        ex_current_def)
  have i1: "inj_on ex_key (builderAddresses ex_builder_same)" by (simp add: a1)
  have i2: "inj_on ex_key (builderAddresses ex_builder_chain)"
    using ex_key_distinct by (simp add: a2)
  have e1: "essence_Inputs ex_builder_same = [[0], [1]]"
    "inputOwner ex_builder_same (essence_Inputs ex_builder_same ! 1) = Some (Ed25519Address [1])"
    and e2: "essence_Inputs ex_builder_chain = [[0], [1]]"
    "inputOwner ex_builder_chain (essence_Inputs ex_builder_chain ! 1) = Some (AccountAddress idA)"
    by (simp_all add: ex_builder_same_def ex_builder_chain_def ex_builder_defs)
  from build_unlock_assignment[OF i1 b1] obtain sign1 msg1 where
    s1: "Some ex_sign = Some sign1" "Inr [42] = (Inr msg1 :: error + bytes)"
    and u1: "\<forall>i<length (essence_Inputs ex_builder_same). \<exists>addr.
              inputOwner ex_builder_same (essence_Inputs ex_builder_same ! i) = Some addr \<and>
              builtUnlock sign1 msg1 (inputOwner ex_builder_same) (b_inputs ex_builder_same)
                (take i (essence_Inputs ex_builder_same)) addr = Some (tx_Unlocks ?tx1 ! i)"
    by blast
  from u1 e1 have "\<exists>addr. Some (Ed25519Address [1]) = Some addr \<and>
              builtUnlock sign1 msg1 (inputOwner ex_builder_same) (b_inputs ex_builder_same)
                (take 1 [[0], [1]]) addr = Some (tx_Unlocks ?tx1 ! 1)"
    by (metis One_nat_def length_Cons lessI list.size(3))
  with s1 have r1: "builtUnlock ex_sign [42] (inputOwner ex_builder_same)
          (b_inputs ex_builder_same) [[0]] (Ed25519Address [1]) = Some (ReferenceUnlock 0)"
    by simp
  from build_unlock_assignment[OF i2 b2] obtain sign2 msg2 where
    s2: "Some ex_sign = Some sign2" "Inr [42] = (Inr msg2 :: error + bytes)"
    and u2: "\<forall>i<length (essence_Inputs ex_builder_chain). \<exists>addr.
              inputOwner ex_builder_chain (essence_Inputs ex_builder_chain ! i) = Some addr \<and>
              builtUnlock sign2 msg2 (inputOwner ex_builder_chain) (b_inputs ex_builder_chain)
                (take i (essence_Inputs ex_builder_chain)) addr = Some (tx_Unlocks ?tx2 ! i)"
    by blast
  from u2 e2 have "\<exists>addr. Some (AccountAddress idA) = Some addr \<and>
              builtUnlock sign2 msg2 (inputOwner ex_builder_chain) (b_inputs ex_builder_chain)
                (take 1 [[0], [1]]) addr = Some (tx_Unlocks ?tx2 ! 1)"
    by (metis One_nat_def length_Cons lessI list.size(3))
  with s2 have r2: "builtUnlock ex_sign [42] (inputOwner ex_builder_chain)
          (b_inputs ex_builder_chain) [[0]] (AccountAddress idA) = Some (AccountUnlock 0)"
    by simp
  from b1 r1 b2 r2 show ?thesis by simp
qed

text \<open>
  Claim C8 as stated fails for chain addresses.  In \<open>ex_builder_chain3\<close> input 0 is the
  account output \<open>idA\<close> and inputs 1 and 2 are owned by the address of that account.  By
  the claim input 1, the first input with that unlocking address, gets a fresh signature
  unlock and input 2 a referential unlock pointing at the first occurrence, position 1;
  \<open>Build\<close> gives both an \<open>AccountUnlock\<close> pointing at position 0, where the account
  output is consumed.  In \<open>ex_builder_twice\<close> inputs 0 and 1 both consume an account
  output \<open>idA\<close>; input 2, owned by the address of that account, is pointed at position 1,
  the last of the two, not the first.
\<close>

theorem build_first_occurrence_counterexample:
  "Build ex_key (\<lambda>ins. Inr []) (\<lambda>ids c. Inr [42]) ex_builder_chain3 (Some ()) (Some ex_sign)
     = Returned \<lparr>tx_Inputs = [[0], [1], [2]], tx_InputsCommitment = [],
                 tx_Unlocks = [SignatureUnlock [1, 42], AccountUnlock 0, AccountUnlock 0]\<rparr> \<and>
   claimedUnlock ex_sign [42] (inputOwner ex_builder_chain3) (b_inputs ex_builder_chain3)
     [[0]] (AccountAddress idA) = Some (SignatureUnlock [1, 42]) \<and>
   claimedUnlock ex_sign [42] (inputOwner ex_builder_chain3) (b_inputs ex_builder_chain3)
     [[0], [1]] (AccountAddress idA) = Some (AccountUnlock 1) \<and>
   Build ex_key (\<lambda>ins. Inr []) (\<lambda>ids c. Inr [42]) ex_builder_twice (Some ()) (Some ex_sign)
     = Returned \<lparr>tx_Inputs = [[0], [1], [2]], tx_InputsCommitment = [],
                 tx_Unlocks = [SignatureUnlock [1, 42], ReferenceUnlock 0, AccountUnlock 1]\<rparr>"
  by (simp add: Build_def ex_builder_chain3_def ex_builder_chain_def ex_builder_twice_def
      ex_builder_defs OrderedSet_def addChainAsUnlocked_def ex_key_distinct ex_current_def
      claimedUnlock_def unlockedChain_def)

end
